theory Spec2Isabelle
  imports Main
begin

section \<open>Strings as the views use them\<close>

text \<open>
  Python strings are modelled as HOL strings, one \<^typ>\<open>char\<close> per character.
  \<open>startswith\<close> is \<open>str.startswith\<close>, \<open>str_contains sub s\<close> is the
  substring test \<open>sub in s\<close>.
\<close>

fun startswith :: "string \<Rightarrow> string \<Rightarrow> bool" where
  "startswith s [] = True"
| "startswith [] (p # ps) = False"
| "startswith (c # cs) (p # ps) = (c = p \<and> startswith cs ps)"

fun str_contains :: "string \<Rightarrow> string \<Rightarrow> bool" where
  "str_contains sub [] = (sub = [])"
| "str_contains sub (c # cs) = (startswith (c # cs) sub \<or> str_contains sub cs)"

section \<open>The cache behind the rate limiter\<close>

text \<open>
  \<open>django.core.cache.cache\<close> is a key-value store whose entries carry an absolute
  expiry time. \<open>cache.get(key, default)\<close> answers the default for a key that is
  absent or whose expiry has been reached; \<open>cache.set(key, value, timeout)\<close>
  stores the value with the expiry \<open>now + timeout\<close>, whether or not the key was
  there before. The clock reading \<open>now\<close> (in seconds) is an explicit argument.
\<close>

type_synonym cache_store = "string \<rightharpoonup> (int \<times> nat)"

definition cache_get :: "cache_store \<Rightarrow> nat \<Rightarrow> string \<Rightarrow> int \<Rightarrow> int" where
  "cache_get c now key dflt =
     (case c key of
        None \<Rightarrow> dflt
      | Some (v, expiry) \<Rightarrow> if expiry \<le> now then dflt else v)"

definition cache_set :: "cache_store \<Rightarrow> nat \<Rightarrow> string \<Rightarrow> int \<Rightarrow> nat \<Rightarrow> cache_store" where
  "cache_set c now key v timeout = c(key \<mapsto> (v, now + timeout))"

section \<open>Rate limiting (views.py, check\_rate\_limit)\<close>

definition RATE_LIMIT_REQUESTS_DEFAULT :: int where
  "RATE_LIMIT_REQUESTS_DEFAULT = 5"

definition RATE_LIMIT_REQUESTS_AMBIENT :: int where
  "RATE_LIMIT_REQUESTS_AMBIENT = 10"

definition RATE_LIMIT_WINDOW :: nat where
  "RATE_LIMIT_WINDOW = 86400"

definition ratelimit_key :: "string \<Rightarrow> string" where
  "ratelimit_key user_id = ''ratelimit:extension:'' @ user_id"

definition check_rate_limit ::
  "cache_store \<Rightarrow> nat \<Rightarrow> string \<Rightarrow> bool \<Rightarrow> (bool \<times> int \<times> int) \<times> cache_store" where
  "check_rate_limit c now user_id is_ambient_user =
     (let cache_key = ratelimit_key user_id;
          limit = (if is_ambient_user then RATE_LIMIT_REQUESTS_AMBIENT
                   else RATE_LIMIT_REQUESTS_DEFAULT);
          current_count = cache_get c now cache_key 0;
          remaining = limit - current_count
      in if current_count \<ge> limit then ((False, 0, limit), c)
         else (let new_count = current_count + 1
               in ((True, remaining - 1, limit),
                   cache_set c now cache_key new_count RATE_LIMIT_WINDOW)))"

text \<open>
  A subject's successive calls, made at the given clock readings with the tier
  unchanged: the store is threaded from one call to the next and the results are
  collected in order.
\<close>

fun run_calls :: "cache_store \<Rightarrow> string \<Rightarrow> bool \<Rightarrow> nat list \<Rightarrow> (bool \<times> int \<times> int) list" where
  "run_calls c user_id amb [] = []"
| "run_calls c user_id amb (t # ts) =
     (case check_rate_limit c t user_id amb of
        (r, c') \<Rightarrow> r # run_calls c' user_id amb ts)"

section \<open>Values and helpers\<close>

text \<open>
  Decimal rendering of an integer, as \<open>str(n)\<close> and an f-string field give it.
\<close>

fun str_nat :: "nat \<Rightarrow> string" where
  "str_nat n =
     (if n < 10 then [''0123456789'' ! n]
      else str_nat (n div 10) @ [''0123456789'' ! (n mod 10)])"

declare str_nat.simps [simp del]

definition str_int :: "int \<Rightarrow> string" where
  "str_int i = (if i < 0 then CHR ''-'' # str_nat (nat (- i)) else str_nat (nat i))"

text \<open>
  \<open>str.strip()\<close> removes leading and trailing whitespace. Among the code points
  a \<^typ>\<open>char\<close> can hold (0 to 255) the whitespace characters are tab, line
  feed, vertical tab, form feed, carriage return (9 to 13), the four separators
  28 to 31, the space (32), NEXT LINE (133) and NO-BREAK SPACE (160).
\<close>

definition py_isspace :: "char \<Rightarrow> bool" where
  "py_isspace ch =
     (let n = (of_char ch :: nat)
      in (9 \<le> n \<and> n \<le> 13) \<or> (28 \<le> n \<and> n \<le> 32) \<or> n = 133 \<or> n = 160)"

definition strip :: "string \<Rightarrow> string" where
  "strip s = rev (dropWhile py_isspace (rev (dropWhile py_isspace s)))"

text \<open>
  A parsed JSON document. A dict is an association list read with \<open>map_of\<close>.
  Numbers are integers; the views never look inside a number.
\<close>

datatype json =
    JNull
  | JBool bool
  | JNum int
  | JStr string
  | JList "json list"
  | JObj "(string \<times> json) list"

fun is_dict :: "json \<Rightarrow> bool" where
  "is_dict (JObj kv) = True"
| "is_dict j = False"

fun is_str :: "json \<Rightarrow> bool" where
  "is_str (JStr s) = True"
| "is_str j = False"

fun is_list :: "json \<Rightarrow> bool" where
  "is_list (JList xs) = True"
| "is_list j = False"

text \<open>\<open>key in data\<close> and \<open>data.get(key)\<close> for a dict \<open>data\<close>.\<close>

fun has_key :: "json \<Rightarrow> string \<Rightarrow> bool" where
  "has_key (JObj kv) k = (map_of kv k \<noteq> None)"
| "has_key j k = False"

fun dict_get :: "json \<Rightarrow> string \<Rightarrow> json" where
  "dict_get (JObj kv) k = (case map_of kv k of None \<Rightarrow> JNull | Some v \<Rightarrow> v)"
| "dict_get j k = JNull"

fun list_items :: "json \<Rightarrow> json list" where
  "list_items (JList xs) = xs"
| "list_items j = []"

text \<open>
  Exceptions: the class decides which handler catches one, \<open>str(e)\<close> is its
  message. \<open>JSONDecodeError\<close> is a subclass of \<open>ValueError\<close>;
  \<open>OtherException\<close> stands for every class that is none of those named.
\<close>

datatype exn_class =
    JSONDecodeError
  | ValueError
  | IndexError
  | KeyError
  | AttributeError
  | OtherException

datatype exn = Exn exn_class string

fun exn_class_of :: "exn \<Rightarrow> exn_class" where
  "exn_class_of (Exn cls m) = cls"

fun str_exn :: "exn \<Rightarrow> string" where
  "str_exn (Exn cls m) = m"

definition is_ValueError :: "exn \<Rightarrow> bool" where
  "is_ValueError e = (exn_class_of e = ValueError \<or> exn_class_of e = JSONDecodeError)"

text \<open>\<open>data[key]\<close>: a missing key raises \<open>KeyError\<close>.\<close>

fun subscript :: "json \<Rightarrow> string \<Rightarrow> exn + json" where
  "subscript (JObj kv) k =
     (case map_of kv k of
        None \<Rightarrow> Inl (Exn KeyError k)
      | Some v \<Rightarrow> Inr v)"
| "subscript j k = Inl (Exn OtherException ''object is not subscriptable by a key'')"

section \<open>Validators (validators.py)\<close>

fun check_messages :: "nat \<Rightarrow> json list \<Rightarrow> string option" where
  "check_messages idx [] = None"
| "check_messages idx (message # rest) =
     (if \<not> is_dict message then
        Some (''Message at index '' @ str_nat idx @ '' must be an object'')
      else if \<not> has_key message ''date'' then
        Some (''Message at index '' @ str_nat idx @ '' missing required field: date'')
      else if \<not> has_key message ''sender'' then
        Some (''Message at index '' @ str_nat idx @ '' missing required field: sender'')
      else if \<not> has_key message ''text'' then
        Some (''Message at index '' @ str_nat idx @ '' missing required field: text'')
      else if \<not> is_str (dict_get message ''date'') then
        Some (''Message at index '' @ str_nat idx @ '': 'date' must be a string'')
      else if \<not> is_str (dict_get message ''sender'') then
        Some (''Message at index '' @ str_nat idx @ '': 'sender' must be a string'')
      else if \<not> is_str (dict_get message ''text'') then
        Some (''Message at index '' @ str_nat idx @ '': 'text' must be a string'')
      else check_messages (Suc idx) rest)"

fun check_participants :: "nat \<Rightarrow> json list \<Rightarrow> string option" where
  "check_participants idx [] = None"
| "check_participants idx (participant # rest) =
     (if \<not> is_str participant then
        Some (''Participant at index '' @ str_nat idx @ '' must be a string'')
      else check_participants (Suc idx) rest)"

definition validate_conversation :: "json \<Rightarrow> bool \<times> string option" where
  "validate_conversation data =
     (if \<not> is_dict data then (False, Some ''Conversation must be a JSON object'')
      else if \<not> has_key data ''title'' then (False, Some ''Missing required field: title'')
      else if \<not> is_str (dict_get data ''title'') then
        (False, Some ''Field 'title' must be a string'')
      else if \<not> has_key data ''structured_messages'' then
        (False, Some ''Missing required field: structured_messages'')
      else if \<not> is_list (dict_get data ''structured_messages'') then
        (False, Some ''Field 'structured_messages' must be an array'')
      else
        (case check_messages 0 (list_items (dict_get data ''structured_messages'')) of
           Some err \<Rightarrow> (False, Some err)
         | None \<Rightarrow>
             if has_key data ''participants'' then
               (if \<not> is_list (dict_get data ''participants'') then
                  (False, Some ''Field 'participants' must be an array'')
                else
                  (case check_participants 0 (list_items (dict_get data ''participants'')) of
                     Some err \<Rightarrow> (False, Some err)
                   | None \<Rightarrow> (True, None)))
             else (True, None)))"

definition valid_event_types :: "string list" where
  "valid_event_types =
     [''full_potential_event_details'', ''incomplete_event_details'',
      ''not_a_desired_event'', ''not_an_event'']"

text \<open>
  The loop over \<open>['start', 'end']\<close> of both event validators: the first field that
  is present, not \<open>None\<close> and not a dict gives the error.
\<close>

fun check_date_fields :: "json \<Rightarrow> string list \<Rightarrow> string option" where
  "check_date_fields data [] = None"
| "check_date_fields data (field # rest) =
     (if has_key data field \<and> dict_get data field \<noteq> JNull \<and> \<not> is_dict (dict_get data field)
      then Some (''Field '' @ CHR 0x27 # field @ CHR 0x27 # '' must be an object'')
      else check_date_fields data rest)"

definition validate_extracted_event :: "json \<Rightarrow> bool \<times> string option" where
  "validate_extracted_event data =
     (if \<not> is_dict data then (False, Some ''Event must be a JSON object'')
      else if \<not> has_key data ''event_type'' then
        (False, Some ''Missing required field: event_type'')
      else if dict_get data ''event_type'' \<notin> set (map JStr valid_event_types) then
        (False, Some (''Invalid event_type. Must be one of: '' @
           ''full_potential_event_details, incomplete_event_details, '' @
           ''not_a_desired_event, not_an_event''))
      else if \<not> has_key data ''summary'' then (False, Some ''Missing required field: summary'')
      else
        (case check_date_fields data [''start'', ''end''] of
           Some err \<Rightarrow> (False, Some err)
         | None \<Rightarrow> (True, None)))"

definition validate_calendar_event :: "json \<Rightarrow> bool \<times> string option" where
  "validate_calendar_event data =
     (if \<not> is_dict data then (False, Some ''Calendar event must be a JSON object'')
      else
        (case check_date_fields data [''start'', ''end''] of
           Some err \<Rightarrow> (False, Some err)
         | None \<Rightarrow> (True, None)))"

text \<open>An error message formatted into an f-string; \<open>None\<close> prints as its name.\<close>

fun fmt_error :: "string option \<Rightarrow> string" where
  "fmt_error None = ''None''"
| "fmt_error (Some m) = m"

fun check_calendar_events :: "nat \<Rightarrow> json list \<Rightarrow> string option" where
  "check_calendar_events idx [] = None"
| "check_calendar_events idx (cal_event # rest) =
     (case validate_calendar_event cal_event of
        (is_valid, error) \<Rightarrow>
          if \<not> is_valid then
            Some (''Invalid calendar_event at index '' @ str_nat idx @ '': '' @ fmt_error error)
          else check_calendar_events (Suc idx) rest)"

definition validate_match_request :: "json \<Rightarrow> bool \<times> string option" where
  "validate_match_request data =
     (if \<not> is_dict data then (False, Some ''Request must be a JSON object'')
      else if \<not> has_key data ''event'' then (False, Some ''Missing required field: event'')
      else if \<not> has_key data ''calendar_events'' then
        (False, Some ''Missing required field: calendar_events'')
      else if \<not> is_list (dict_get data ''calendar_events'') then
        (False, Some ''Field 'calendar_events' must be an array'')
      else
        (case validate_extracted_event (dict_get data ''event'') of
           (is_valid, error) \<Rightarrow>
             if \<not> is_valid then (False, Some (''Invalid event: '' @ fmt_error error))
             else
               (case check_calendar_events 0 (list_items (dict_get data ''calendar_events'')) of
                  Some err \<Rightarrow> (False, Some err)
                | None \<Rightarrow> (True, None))))"

definition validate_extract_request :: "json \<Rightarrow> bool \<times> string option" where
  "validate_extract_request data =
     (if \<not> is_dict data then (False, Some ''Request must be a JSON object'')
      else if \<not> has_key data ''conversation'' then
        (False, Some ''Missing required field: conversation'')
      else if \<not> has_key data ''user_name'' then
        (False, Some ''Missing required field: user_name'')
      else
        (case dict_get data ''user_name'' of
           JStr user_name \<Rightarrow>
             if strip user_name = [] then (False, Some ''Field 'user_name' cannot be empty'')
             else
               (case validate_conversation (dict_get data ''conversation'') of
                  (is_valid, error) \<Rightarrow>
                    if \<not> is_valid then
                      (False, Some (''Invalid conversation: '' @ fmt_error error))
                    else (True, None))
         | _ \<Rightarrow> (False, Some ''Field 'user_name' must be a string'')))"

section \<open>Requests, responses and the world around a view (views.py)\<close>

definition DEFAULT_MODEL :: string where
  "DEFAULT_MODEL = ''gemini-2.0-flash''"

definition ALLOWED_ORIGINS :: "string list" where
  "ALLOWED_ORIGINS =
     [''chrome-extension://lmmjfddkgnehcnhelddgmlmookgemeop'',
      ''https://messages.google.com'',
      ''https://www.messenger.com'',
      ''https://web.whatsapp.com'']"

definition GOOGLE_CLIENT_ID :: string where
  "GOOGLE_CLIENT_ID =
     ''636710672879-jtimq18mggv3ev79itq5uq0f1tpdmf5d.apps.googleusercontent.com''"

text \<open>
  A request carries its method, headers and body, and the two attributes that
  \<open>require_google_auth\<close> attaches before it calls the view.
\<close>

record request =
  http_method :: string
  req_headers :: "string \<rightharpoonup> string"
  req_body :: string
  google_user_id :: "string option"
  is_ambient_user :: "bool option"

text \<open>
  A response: status code, the JSON document of a \<open>JsonResponse\<close> (\<open>None\<close> for a
  response without one) and the headers set on it.
\<close>

record response =
  status :: nat
  body :: "json option"
  headers :: "string \<rightharpoonup> string"

definition JsonResponse :: "(string \<times> json) list \<Rightarrow> nat \<Rightarrow> response" where
  "JsonResponse data code = \<lparr>status = code, body = Some (JObj data), headers = Map.empty\<rparr>"

definition HttpResponse :: response where
  "HttpResponse = \<lparr>status = 200, body = None, headers = Map.empty\<rparr>"

text \<open>\<open>response[name] = value\<close>.\<close>

definition set_header :: "response \<Rightarrow> string \<Rightarrow> string \<Rightarrow> response" where
  "set_header r name v = r\<lparr>headers := (headers r)(name \<mapsto> v)\<rparr>"

text \<open>
  \<open>request.headers.get(name, '')\<close>; the map holds each header under the name
  the views look it up by.
\<close>

definition header_or_empty :: "request \<Rightarrow> string \<Rightarrow> string" where
  "header_or_empty req name = (case req_headers req name of None \<Rightarrow> [] | Some v \<Rightarrow> v)"

text \<open>
  What a request can change or cause, threaded through every view: the rate-limit
  store, the outbound calls of token verification in the order made, the number
  of calls to the generation service, and the seconds slept, one entry per
  \<open>time.sleep\<close>.
\<close>

datatype net_call = UserinfoCall string | TokeninfoCall string

record world =
  cache :: cache_store
  net_calls :: "net_call list"
  gen_calls :: nat
  slept :: "nat list"

text \<open>
  An outbound GET either raises (a timeout, a connection error) or answers with a
  status code and a body whose \<open>.json()\<close> either raises or is a dict of strings.
\<close>

datatype http_outcome =
    HttpRaises exn
  | HttpAnswer nat "exn + (string \<times> string) list"

text \<open>
  One call of \<open>client.models.generate_content\<close> either raises or returns a response
  whose \<open>.text\<close> is a string or \<open>None\<close>.
\<close>

datatype gen_outcome = GenRaises exn | GenReturns "string option"

text \<open>
  A client of the generation service: model name, prompt and configuration are
  passed through; the last argument counts the calls made before this one, so a
  client may answer each attempt differently.
\<close>

type_synonym gen_client = "string \<Rightarrow> string \<Rightarrow> json \<Rightarrow> nat \<Rightarrow> gen_outcome"

text \<open>
  The collaborators a view calls that live outside views.py and validators.py:
  the cache's clock, the two Google endpoints, the user table, the settings, the
  JSON parser, the prompt builders, the client constructor and the parser of the
  model's answer. Each may raise.
\<close>

record env =
  cache_time :: nat
  userinfo_get :: "string \<Rightarrow> http_outcome"
  tokeninfo_get :: "string \<Rightarrow> http_outcome"
  custom_user_exists :: "string \<Rightarrow> exn + bool"
  DEFAULT_API_KEY :: "string option"
  json_loads :: "string \<Rightarrow> exn + json"
  get_text_event_extraction_instructions :: "string \<Rightarrow> exn + string"
  format_conversation_for_event_extraction :: "json \<Rightarrow> exn + string"
  generate_event_match_instructions :: "json \<Rightarrow> json \<Rightarrow> exn + string"
  genai_Client :: "string \<Rightarrow> exn + gen_client"
  sanitize_and_parse_json :: "string option \<Rightarrow> exn + json"

type_synonym view = "request \<Rightarrow> world \<Rightarrow> (exn + response) \<times> world"

section \<open>Token verification and profile lookup\<close>

definition verify_google_token ::
  "env \<Rightarrow> string \<Rightarrow> world \<Rightarrow> (string \<times> string) list option \<times> world" where
  "verify_google_token e token w =
     (let w1 = w\<lparr>net_calls := net_calls w @ [UserinfoCall token]\<rparr> in
      case userinfo_get e token of
        HttpRaises x \<Rightarrow> (None, w1)
      | HttpAnswer code js \<Rightarrow>
          if code \<noteq> 200 then (None, w1)
          else
            (case js of
               Inl x \<Rightarrow> (None, w1)
             | Inr userinfo \<Rightarrow>
                 if map_of userinfo ''sub'' = None then (None, w1)
                 else
                   (let w2 = w1\<lparr>net_calls := net_calls w1 @ [TokeninfoCall token]\<rparr> in
                    case tokeninfo_get e token of
                      HttpRaises x \<Rightarrow> (None, w2)
                    | HttpAnswer code2 js2 \<Rightarrow>
                        if code2 \<noteq> 200 then (None, w2)
                        else
                          (case js2 of
                             Inl x \<Rightarrow> (None, w2)
                           | Inr tokeninfo \<Rightarrow>
                               if map_of tokeninfo ''aud'' \<noteq> Some GOOGLE_CLIENT_ID
                               then (None, w2)
                               else (Some userinfo, w2)))))"

definition check_ambient_profile :: "env \<Rightarrow> string \<Rightarrow> bool" where
  "check_ambient_profile e email =
     (if email = [] then False
      else (case custom_user_exists e email of Inl x \<Rightarrow> False | Inr found \<Rightarrow> found))"

section \<open>The authentication decorator\<close>

text \<open>The 401 document of \<open>require_google_auth\<close>, with its message.\<close>

definition auth_failure :: "string \<Rightarrow> response" where
  "auth_failure message =
     JsonResponse
       [(''success'', JBool False), (''error'', JStr message),
        (''events'', JNull), (''match_result'', JNull)] 401"

definition rate_limited :: "bool \<Rightarrow> int \<Rightarrow> response" where
  "rate_limited amb limit =
     set_header
       (set_header
          (set_header
             (set_header
                (JsonResponse
                   [(''success'', JBool False),
                    (''error'', JStr ''Rate limit exceeded. Please try again later.''),
                    (''events'', JNull), (''match_result'', JNull),
                    (''is_ambient_user'', JBool amb)] 429)
                ''X-RateLimit-Remaining'' ''0'')
             ''X-RateLimit-Reset'' (str_nat RATE_LIMIT_WINDOW))
          ''X-RateLimit-Limit'' (str_int limit))
       ''X-Ambient-User'' (if amb then ''true'' else ''false'')"

definition require_google_auth :: "env \<Rightarrow> view \<Rightarrow> view" where
  "require_google_auth e view_func req w =
     (if http_method req = ''OPTIONS'' then view_func req w
      else
        (let auth_header = header_or_empty req ''Authorization'' in
         if \<not> startswith auth_header ''Bearer '' then
           (Inr (auth_failure ''Missing or invalid Authorization header''), w)
         else
           (let token = drop 7 auth_header in
            if token = [] \<or> length token < 20 then
              (Inr (auth_failure ''Invalid token format''), w)
            else
              (case verify_google_token e token w of
                 (None, w1) \<Rightarrow>
                   (Inr (auth_failure
                      ''Invalid or expired Google token. Please reconnect your calendar.''), w1)
               | (Some userinfo, w1) \<Rightarrow>
                   if userinfo = [] then
                     (Inr (auth_failure
                        ''Invalid or expired Google token. Please reconnect your calendar.''), w1)
                   else
                     (case map_of userinfo ''sub'' of
                        None \<Rightarrow> (Inl (Exn KeyError ''sub''), w1)
                      | Some user_id \<Rightarrow>
                          (let user_email =
                                 (case map_of userinfo ''email'' of None \<Rightarrow> [] | Some v \<Rightarrow> v);
                               amb = check_ambient_profile e user_email
                           in case check_rate_limit (cache w1) (cache_time e) user_id amb of
                                ((allowed, remaining, limit), c') \<Rightarrow>
                                  (let w2 = w1\<lparr>cache := c'\<rparr> in
                                   if \<not> allowed then (Inr (rate_limited amb limit), w2)
                                   else
                                     (case view_func
                                             (req\<lparr>google_user_id := Some user_id,
                                                  is_ambient_user := Some amb\<rparr>) w2 of
                                        (Inl x, w3) \<Rightarrow> (Inl x, w3)
                                      | (Inr response, w3) \<Rightarrow>
                                          (Inr (set_header
                                                  (set_header
                                                     (set_header response
                                                        ''X-RateLimit-Remaining'' (str_int remaining))
                                                     ''X-RateLimit-Limit'' (str_int limit))
                                                  ''X-Ambient-User''
                                                  (if amb then ''true'' else ''false'')),
                                           w3)))))))))"

section \<open>Cross-origin policy\<close>

definition get_cors_origin :: "request \<Rightarrow> string option" where
  "get_cors_origin req =
     (let origin = header_or_empty req ''Origin''
      in if origin \<in> set ALLOWED_ORIGINS then Some origin else None)"

definition add_cors_headers :: "response \<Rightarrow> string option \<Rightarrow> response" where
  "add_cors_headers response origin =
     (case origin of
        None \<Rightarrow> response
      | Some orig \<Rightarrow>
          if orig = [] then response
          else
            set_header
              (set_header
                 (set_header
                    (set_header response ''Access-Control-Allow-Origin'' orig)
                    ''Access-Control-Allow-Methods'' ''GET, POST, OPTIONS'')
                 ''Access-Control-Allow-Headers'' ''Content-Type, Authorization'')
              ''Access-Control-Expose-Headers''
              ''X-RateLimit-Remaining, X-RateLimit-Reset, X-RateLimit-Limit, X-Ambient-User'')"

definition cors_exempt :: "view \<Rightarrow> view" where
  "cors_exempt view_func req w =
     (let origin = get_cors_origin req in
      if http_method req = ''OPTIONS'' then (Inr (add_cors_headers HttpResponse origin), w)
      else
        (case view_func req w of
           (Inl x, w') \<Rightarrow> (Inl x, w')
         | (Inr response, w') \<Rightarrow> (Inr (add_cors_headers response origin), w')))"

text \<open>
  Django's \<open>csrf_exempt\<close> only marks the view; \<open>require_http_methods\<close> answers a
  method outside its list with \<open>HttpResponseNotAllowed\<close>: status 405, no document,
  and the permitted methods in the \<open>Allow\<close> header.
\<close>

definition csrf_exempt :: "view \<Rightarrow> view" where
  "csrf_exempt view_func = view_func"

fun join_comma :: "string list \<Rightarrow> string" where
  "join_comma [] = []"
| "join_comma [s] = s"
| "join_comma (s # t # rest) = s @ '', '' @ join_comma (t # rest)"

definition HttpResponseNotAllowed :: "string list \<Rightarrow> response" where
  "HttpResponseNotAllowed permitted =
     \<lparr>status = 405, body = None, headers = [''Allow'' \<mapsto> join_comma permitted]\<rparr>"

definition require_http_methods :: "string list \<Rightarrow> view \<Rightarrow> view" where
  "require_http_methods request_method_list func req w =
     (if http_method req \<notin> set request_method_list
      then (Inr (HttpResponseNotAllowed request_method_list), w)
      else func req w)"

definition get_api_key :: "env \<Rightarrow> exn + string" where
  "get_api_key e =
     (case DEFAULT_API_KEY e of
        None \<Rightarrow> Inl (Exn ValueError ''DEFAULT_API_KEY not configured in settings'')
      | Some api_key \<Rightarrow>
          if api_key = [] then Inl (Exn ValueError ''DEFAULT_API_KEY not configured in settings'')
          else Inr api_key)"

section \<open>The retrying caller\<close>

definition transient_codes :: "string list" where
  "transient_codes = [''500'', ''503'', ''UNAVAILABLE'', ''INTERNAL'']"

text \<open>\<open>time.sleep(seconds)\<close>, recorded.\<close>

definition sleep :: "nat \<Rightarrow> world \<Rightarrow> world" where
  "sleep seconds w = w\<lparr>slept := slept w @ [seconds]\<rparr>"

text \<open>
  \<open>response.text\<close> is truthy and holds the marker: the test of both in-band checks.
\<close>

fun text_has :: "string option \<Rightarrow> string \<Rightarrow> bool" where
  "text_has None marker = False"
| "text_has (Some t) marker = (t \<noteq> [] \<and> str_contains marker t)"

text \<open>
  The loop \<open>for attempt in range(max_retries)\<close> over the attempts still to make;
  running out of attempts is the statement after the loop.
\<close>

fun retry_attempts ::
  "gen_client \<Rightarrow> string \<Rightarrow> string \<Rightarrow> json \<Rightarrow> int \<Rightarrow> nat list \<Rightarrow> world
     \<Rightarrow> (exn + string option) \<times> world" where
  "retry_attempts client model_name prompt config max_retries [] w =
     (Inl (Exn OtherException ''Gemini API error: max retries exceeded''), w)"
| "retry_attempts client model_name prompt config max_retries (attempt # rest) w =
     (case client model_name prompt config attempt of
        GenReturns text \<Rightarrow>
          if text_has text ''Error processing request: 500 INTERNAL.'' then
            retry_attempts client model_name prompt config max_retries rest
              (sleep (attempt + 1) (w\<lparr>gen_calls := Suc (gen_calls w)\<rparr>))
          else if text_has text ''503 UNAVAILABLE.'' then
            retry_attempts client model_name prompt config max_retries rest
              (sleep (attempt + 1) (w\<lparr>gen_calls := Suc (gen_calls w)\<rparr>))
          else (Inr text, w\<lparr>gen_calls := Suc (gen_calls w)\<rparr>)
      | GenRaises x \<Rightarrow>
          if list_ex (\<lambda>code. str_contains code (str_exn x)) transient_codes then
            (if int attempt = max_retries - 1 then
               (Inl (Exn OtherException
                       (''Gemini API error after '' @ str_int max_retries @ '' attempts: '' @
                        str_exn x)),
                sleep (attempt + 1) (w\<lparr>gen_calls := Suc (gen_calls w)\<rparr>))
             else
               retry_attempts client model_name prompt config max_retries rest
                 (sleep (attempt + 1) (w\<lparr>gen_calls := Suc (gen_calls w)\<rparr>)))
          else (Inl x, w\<lparr>gen_calls := Suc (gen_calls w)\<rparr>))"

definition call_gemini_with_retry ::
  "gen_client \<Rightarrow> string \<Rightarrow> string \<Rightarrow> json \<Rightarrow> int \<Rightarrow> world
     \<Rightarrow> (exn + string option) \<times> world" where
  "call_gemini_with_retry client model_name prompt config max_retries w =
     retry_attempts client model_name prompt config max_retries [0..<nat max_retries] w"

section \<open>The endpoints\<close>

definition generation_config :: json where
  "generation_config = JObj [(''response_mime_type'', JStr ''application/json'')]"

text \<open>\<open>value.strip()\<close> of a parsed value: only a string has the method.\<close>

fun py_strip :: "json \<Rightarrow> exn + string" where
  "py_strip (JStr s) = Inr (strip s)"
| "py_strip j = Inl (Exn AttributeError ''object has no attribute 'strip' '')"

text \<open>\<open>request.is_ambient_user\<close>, an attribute only the decorator sets.\<close>

definition ambient_flag :: "request \<Rightarrow> exn + bool" where
  "ambient_flag req =
     (case is_ambient_user req of
        None \<Rightarrow> Inl (Exn AttributeError ''request has no attribute 'is_ambient_user' '')
      | Some amb \<Rightarrow> Inr amb)"

text \<open>
  The \<open>try\<close> block of \<open>extract_event\<close>: \<open>Inl\<close> is an exception that reaches the
  handlers below it.
\<close>

definition extract_event_try :: "env \<Rightarrow> view" where
  "extract_event_try e req w =
     (case json_loads e (req_body req) of
        Inl x \<Rightarrow>
          if exn_class_of x = JSONDecodeError then
            (Inr (JsonResponse
                    [(''success'', JBool False), (''events'', JNull),
                     (''error'', JStr (''Invalid JSON: '' @ str_exn x))] 400), w)
          else (Inl x, w)
      | Inr data \<Rightarrow>
          (case validate_extract_request data of
             (is_valid, error) \<Rightarrow>
               if \<not> is_valid then
                 (Inr (JsonResponse
                         [(''success'', JBool False), (''events'', JNull),
                          (''error'', (case error of None \<Rightarrow> JNull | Some m \<Rightarrow> JStr m))] 400), w)
               else
                 (case subscript data ''conversation'' of
                    Inl x \<Rightarrow> (Inl x, w)
                  | Inr conversation \<Rightarrow>
                 (case subscript data ''user_name'' of
                    Inl x \<Rightarrow> (Inl x, w)
                  | Inr raw_name \<Rightarrow>
                 (case py_strip raw_name of
                    Inl x \<Rightarrow> (Inl x, w)
                  | Inr user_name \<Rightarrow>
                 (case get_text_event_extraction_instructions e user_name of
                    Inl x \<Rightarrow> (Inl x, w)
                  | Inr instructions \<Rightarrow>
                 (case format_conversation_for_event_extraction e conversation of
                    Inl x \<Rightarrow> (Inl x, w)
                  | Inr formatted_input \<Rightarrow>
                 (case get_api_key e of
                    Inl x \<Rightarrow> (Inl x, w)
                  | Inr api_key \<Rightarrow>
                 (case genai_Client e api_key of
                    Inl x \<Rightarrow> (Inl x, w)
                  | Inr client \<Rightarrow>
                 (case call_gemini_with_retry client DEFAULT_MODEL
                         (instructions @ formatted_input) generation_config 3 w of
                    (Inl x, w1) \<Rightarrow> (Inl x, w1)
                  | (Inr response_text, w1) \<Rightarrow>
                 (case sanitize_and_parse_json e response_text of
                    Inl x \<Rightarrow>
                      (Inr (JsonResponse
                              [(''success'', JBool False), (''events'', JNull),
                               (''error'', JStr (''Failed to parse AI response: '' @ str_exn x))]
                              500), w1)
                  | Inr parsed \<Rightarrow>
                 (case ambient_flag req of
                    Inl x \<Rightarrow> (Inl x, w1)
                  | Inr amb \<Rightarrow>
                      (Inr (JsonResponse
                              [(''success'', JBool True),
                               (''events'', if is_dict parsed then JList [parsed] else parsed),
                               (''error'', JNull),
                               (''is_ambient_user'', JBool amb)] 200), w1)))))))))))))"

definition extract_event_view :: "env \<Rightarrow> view" where
  "extract_event_view e req w =
     (case extract_event_try e req w of
        (Inr response, w') \<Rightarrow> (Inr response, w')
      | (Inl x, w') \<Rightarrow>
          if is_ValueError x then
            (Inr (JsonResponse
                    [(''success'', JBool False), (''events'', JNull),
                     (''error'', JStr (str_exn x))] 500), w')
          else
            (Inr (JsonResponse
                    [(''success'', JBool False), (''events'', JNull),
                     (''error'', JStr (''Internal error: '' @ str_exn x))] 500), w'))"

definition extract_event :: "env \<Rightarrow> view" where
  "extract_event e =
     csrf_exempt (cors_exempt (require_google_auth e
       (require_http_methods [''POST'', ''OPTIONS''] (extract_event_view e))))"

definition no_match_result :: json where
  "no_match_result =
     JObj [(''match_data'',
            JObj [(''match_type'', JStr ''no_match''),
                  (''matched_event'', JNull),
                  (''matched_event_id'', JNull)])]"

text \<open>
  The \<open>try\<close> block of \<open>find_matches\<close>. Validation has made \<open>calendar_events\<close> a
  list before its length is taken.
\<close>

definition find_matches_try :: "env \<Rightarrow> view" where
  "find_matches_try e req w =
     (case json_loads e (req_body req) of
        Inl x \<Rightarrow>
          if exn_class_of x = JSONDecodeError then
            (Inr (JsonResponse
                    [(''success'', JBool False), (''match_result'', JNull),
                     (''error'', JStr (''Invalid JSON: '' @ str_exn x))] 400), w)
          else (Inl x, w)
      | Inr data \<Rightarrow>
          (case validate_match_request data of
             (is_valid, error) \<Rightarrow>
               if \<not> is_valid then
                 (Inr (JsonResponse
                         [(''success'', JBool False), (''match_result'', JNull),
                          (''error'', (case error of None \<Rightarrow> JNull | Some m \<Rightarrow> JStr m))] 400), w)
               else
                 (case subscript data ''event'' of
                    Inl x \<Rightarrow> (Inl x, w)
                  | Inr event \<Rightarrow>
                 (case subscript data ''calendar_events'' of
                    Inl x \<Rightarrow> (Inl x, w)
                  | Inr calendar_events \<Rightarrow>
                 if length (list_items calendar_events) = 0 then
                   (case ambient_flag req of
                      Inl x \<Rightarrow> (Inl x, w)
                    | Inr amb \<Rightarrow>
                        (Inr (JsonResponse
                                [(''success'', JBool True),
                                 (''match_result'', no_match_result),
                                 (''error'', JNull),
                                 (''is_ambient_user'', JBool amb)] 200), w))
                 else
                 (case generate_event_match_instructions e event calendar_events of
                    Inl x \<Rightarrow> (Inl x, w)
                  | Inr prompt \<Rightarrow>
                 (case get_api_key e of
                    Inl x \<Rightarrow> (Inl x, w)
                  | Inr api_key \<Rightarrow>
                 (case genai_Client e api_key of
                    Inl x \<Rightarrow> (Inl x, w)
                  | Inr client \<Rightarrow>
                 (case call_gemini_with_retry client DEFAULT_MODEL prompt generation_config 3 w of
                    (Inl x, w1) \<Rightarrow> (Inl x, w1)
                  | (Inr response_text, w1) \<Rightarrow>
                 (case sanitize_and_parse_json e response_text of
                    Inl x \<Rightarrow>
                      (Inr (JsonResponse
                              [(''success'', JBool False), (''match_result'', JNull),
                               (''error'', JStr (''Failed to parse AI response: '' @ str_exn x))]
                              500), w1)
                  | Inr match_result \<Rightarrow>
                 (case ambient_flag req of
                    Inl x \<Rightarrow> (Inl x, w1)
                  | Inr amb \<Rightarrow>
                      (Inr (JsonResponse
                              [(''success'', JBool True),
                               (''match_result'', match_result),
                               (''error'', JNull),
                               (''is_ambient_user'', JBool amb)] 200), w1)))))))))))"

definition find_matches_view :: "env \<Rightarrow> view" where
  "find_matches_view e req w =
     (case find_matches_try e req w of
        (Inr response, w') \<Rightarrow> (Inr response, w')
      | (Inl x, w') \<Rightarrow>
          if is_ValueError x then
            (Inr (JsonResponse
                    [(''success'', JBool False), (''match_result'', JNull),
                     (''error'', JStr (str_exn x))] 500), w')
          else
            (Inr (JsonResponse
                    [(''success'', JBool False), (''match_result'', JNull),
                     (''error'', JStr (''Internal error: '' @ str_exn x))] 500), w'))"

definition find_matches :: "env \<Rightarrow> view" where
  "find_matches e =
     csrf_exempt (cors_exempt (require_google_auth e
       (require_http_methods [''POST'', ''OPTIONS''] (find_matches_view e))))"

definition health_check_view :: "env \<Rightarrow> view" where
  "health_check_view e req w =
     (Inr (JsonResponse
             [(''status'', JStr ''ok''),
              (''api_configured'',
               JBool (case DEFAULT_API_KEY e of None \<Rightarrow> False | Some k \<Rightarrow> k \<noteq> []))] 200), w)"

definition health_check :: "env \<Rightarrow> view" where
  "health_check e =
     csrf_exempt (cors_exempt (require_http_methods [''GET'', ''OPTIONS''] (health_check_view e)))"

text \<open>
  The masking step of \<open>check_profile\<close>: \<open>split('@', 1)\<close> cuts at the first \<open>@\<close>,
  \<open>local_part[:3]\<close> is a slice and never fails, \<open>local_part[0]\<close> is an index and
  raises \<open>IndexError\<close> on the empty string.
\<close>

definition mask_email :: "string \<Rightarrow> exn + string" where
  "mask_email user_email =
     (if user_email \<noteq> [] \<and> CHR ''@'' \<in> set user_email then
        (let local_part = takeWhile (\<lambda>ch. ch \<noteq> CHR ''@'') user_email;
             domain = tl (dropWhile (\<lambda>ch. ch \<noteq> CHR ''@'') user_email)
         in if length local_part > 3 then Inr (take 3 local_part @ ''***@'' @ domain)
            else
              (case local_part of
                 [] \<Rightarrow> Inl (Exn IndexError ''string index out of range'')
               | ch # rest \<Rightarrow> Inr (ch # ''***@'' @ domain)))
      else Inr ''***'')"

definition profile_failure :: "string \<Rightarrow> response" where
  "profile_failure message =
     JsonResponse
       [(''success'', JBool False), (''is_ambient_user'', JBool False),
        (''email'', JNull), (''error'', JStr message)] 401"

definition check_profile_view :: "env \<Rightarrow> view" where
  "check_profile_view e req w =
     (if http_method req = ''OPTIONS'' then (Inr HttpResponse, w)
      else
        (let auth_header = header_or_empty req ''Authorization'' in
         if \<not> startswith auth_header ''Bearer '' then
           (Inr (profile_failure ''Missing or invalid Authorization header''), w)
         else
           (let token = drop 7 auth_header in
            if token = [] \<or> length token < 20 then
              (Inr (profile_failure ''Invalid token format''), w)
            else
              (case verify_google_token e token w of
                 (None, w1) \<Rightarrow>
                   (Inr (profile_failure
                      ''Invalid or expired Google token. Please reconnect your calendar.''), w1)
               | (Some userinfo, w1) \<Rightarrow>
                   if userinfo = [] then
                     (Inr (profile_failure
                        ''Invalid or expired Google token. Please reconnect your calendar.''), w1)
                   else
                     (let user_email =
                            (case map_of userinfo ''email'' of None \<Rightarrow> [] | Some v \<Rightarrow> v)
                      in case mask_email user_email of
                           Inl x \<Rightarrow> (Inl x, w1)
                         | Inr masked_email \<Rightarrow>
                             (Inr (JsonResponse
                                     [(''success'', JBool True),
                                      (''is_ambient_user'',
                                       JBool (check_ambient_profile e user_email)),
                                      (''email'', JStr masked_email),
                                      (''error'', JNull)] 200), w1))))))"

definition check_profile :: "env \<Rightarrow> view" where
  "check_profile e =
     csrf_exempt (cors_exempt (require_http_methods [''GET'', ''OPTIONS''] (check_profile_view e)))"

text \<open>
  The routes of urls.py whose views are in views.py (\<open>extract_from_file\<close> is
  routed there but not defined in it).
\<close>

datatype endpoint = ExtractEvent | FindMatches | HealthCheck | CheckProfile

fun urlpatterns :: "env \<Rightarrow> endpoint \<Rightarrow> view" where
  "urlpatterns e ExtractEvent = extract_event e"
| "urlpatterns e FindMatches = find_matches e"
| "urlpatterns e HealthCheck = health_check e"
| "urlpatterns e CheckProfile = check_profile e"

section \<open>Vocabulary of the properties\<close>

text \<open>
  An attempt fails with a transient signature when it raises an error whose
  message holds one of the transient codes, or returns text that holds one of the
  two in-band markers.
\<close>

fun transient_outcome :: "gen_outcome \<Rightarrow> bool" where
  "transient_outcome (GenRaises x) =
     list_ex (\<lambda>code. str_contains code (str_exn x)) transient_codes"
| "transient_outcome (GenReturns t) =
     (text_has t ''Error processing request: 500 INTERNAL.'' \<or> text_has t ''503 UNAVAILABLE.'')"

text \<open>
  The error that ends an exhausted retry loop, by the outcome of its last attempt.
\<close>

fun terminal_error :: "int \<Rightarrow> gen_outcome \<Rightarrow> exn" where
  "terminal_error max_retries (GenRaises x) =
     Exn OtherException
       (''Gemini API error after '' @ str_int max_retries @ '' attempts: '' @ str_exn x)"
| "terminal_error max_retries (GenReturns t) =
     Exn OtherException ''Gemini API error: max retries exceeded''"

text \<open>The four headers \<open>add_cors_headers\<close> sets, all there for an origin or all missing.\<close>

definition cors_headers_present :: "response \<Rightarrow> string \<Rightarrow> bool" where
  "cors_headers_present r origin =
     (headers r ''Access-Control-Allow-Origin'' = Some origin \<and>
      headers r ''Access-Control-Allow-Methods'' = Some ''GET, POST, OPTIONS'' \<and>
      headers r ''Access-Control-Allow-Headers'' = Some ''Content-Type, Authorization'' \<and>
      headers r ''Access-Control-Expose-Headers'' =
        Some ''X-RateLimit-Remaining, X-RateLimit-Reset, X-RateLimit-Limit, X-Ambient-User'')"

definition cors_headers_absent :: "response \<Rightarrow> bool" where
  "cors_headers_absent r =
     (headers r ''Access-Control-Allow-Origin'' = None \<and>
      headers r ''Access-Control-Allow-Methods'' = None \<and>
      headers r ''Access-Control-Allow-Headers'' = None \<and>
      headers r ''Access-Control-Expose-Headers'' = None)"

text \<open>
  The error envelope: a document whose \<open>success\<close> is false, whose \<open>error\<close> is a
  string, and one of whose data fields (\<open>events\<close>, \<open>match_result\<close>, \<open>email\<close>) is
  null.
\<close>

definition error_envelope :: "response \<Rightarrow> bool" where
  "error_envelope r =
     (case body r of
        Some (JObj kv) \<Rightarrow>
          map_of kv ''success'' = Some (JBool False) \<and>
          is_str (dict_get (JObj kv) ''error'') \<and>
          list_ex (\<lambda>field. map_of kv field = Some JNull) [''events'', ''match_result'', ''email'']
      | _ \<Rightarrow> False)"

text \<open>
  Two properties of a view, used to carry a fact through the decorators: none of
  its responses has a cross-origin header, and each of its responses with an
  error status other than 405 has the error envelope.
\<close>

definition view_no_cors :: "view \<Rightarrow> bool" where
  "view_no_cors v = (\<forall>req w r w'. v req w = (Inr r, w') \<longrightarrow> cors_headers_absent r)"

definition view_enveloped :: "view \<Rightarrow> bool" where
  "view_enveloped v =
     (\<forall>req w r w'. v req w = (Inr r, w') \<longrightarrow>
        400 \<le> status r \<longrightarrow> status r \<noteq> 405 \<longrightarrow> error_envelope r)"

text \<open>A view that answers every request with a response, never with an exception.\<close>

definition view_total :: "view \<Rightarrow> bool" where
  "view_total v = (\<forall>req w. \<exists>r w'. v req w = (Inr r, w'))"

section \<open>Test doubles\<close>

definition world0 :: world where
  "world0 = \<lparr>cache = Map.empty, net_calls = [], gen_calls = 0, slept = []\<rparr>"

definition good_token :: string where
  "good_token = ''ya29.a0AfH6SMBx-token-of-plausible-length''"

text \<open>A client whose every call returns the in-band marker of an unavailable service.\<close>

definition client_in_band :: gen_client where
  "client_in_band model_name prompt config n = GenReturns (Some ''503 UNAVAILABLE.'')"

text \<open>A client whose every call raises with a transient code in the message.\<close>

definition client_raising :: gen_client where
  "client_raising model_name prompt config n = GenRaises (Exn OtherException ''503 UNAVAILABLE'')"

text \<open>A client whose every call raises a permanent rejection.\<close>

definition client_rejecting :: gen_client where
  "client_rejecting model_name prompt config n =
     GenRaises (Exn OtherException ''400 INVALID_ARGUMENT'')"

text \<open>
  An environment in which Google accepts every token for the account with the
  given email, no such user is registered, and every body parses to a match
  request with no calendar events.
\<close>

definition stub_env :: "string \<Rightarrow> env" where
  "stub_env email =
     \<lparr>cache_time = 1000,
      userinfo_get =
        (\<lambda>token. HttpAnswer 200 (Inr [(''sub'', ''110248495921238986420''), (''email'', email)])),
      tokeninfo_get = (\<lambda>token. HttpAnswer 200 (Inr [(''aud'', GOOGLE_CLIENT_ID)])),
      custom_user_exists = (\<lambda>m. Inr False),
      DEFAULT_API_KEY = Some ''key'',
      json_loads =
        (\<lambda>b. Inr (JObj [(''event'',
                           JObj [(''event_type'', JStr ''not_an_event''), (''summary'', JStr ''tea'')]),
                          (''calendar_events'', JList [])])),
      get_text_event_extraction_instructions = (\<lambda>user_name. Inr ''instructions''),
      format_conversation_for_event_extraction = (\<lambda>conversation. Inr ''conversation''),
      generate_event_match_instructions = (\<lambda>event calendar_events. Inr ''prompt''),
      genai_Client = (\<lambda>api_key. Inr client_raising),
      sanitize_and_parse_json = (\<lambda>t. Inr JNull)\<rparr>"

definition stub_request :: "string \<Rightarrow> string \<Rightarrow> string \<Rightarrow> request" where
  "stub_request meth token origin =
     \<lparr>http_method = meth,
      req_headers = [''Authorization'' \<mapsto> ''Bearer '' @ token, ''Origin'' \<mapsto> origin],
      req_body = ''{}'',
      google_user_id = None,
      is_ambient_user = None\<rparr>"

section \<open>The string tests are the ones meant\<close>

text \<open>
  \<open>startswith\<close> holds exactly of a prefix and \<open>str_contains\<close> exactly of a
  contiguous substring.
\<close>

lemma startswith_iff: "startswith s p \<longleftrightarrow> (\<exists>post. s = p @ post)"
  by (induction s p rule: startswith.induct) auto

lemma str_contains_iff: "str_contains sub s \<longleftrightarrow> (\<exists>pre post. s = pre @ sub @ post)"
proof (induction s)
  case Nil
  then show ?case by auto
next
  case (Cons c cs)
  show ?case
  proof
    assume "str_contains sub (c # cs)"
    then consider "startswith (c # cs) sub" | "str_contains sub cs" by auto
    then show "\<exists>pre post. c # cs = pre @ sub @ post"
    proof cases
      case 1
      then obtain post where "c # cs = sub @ post" using startswith_iff by blast
      then have "c # cs = [] @ sub @ post" by simp
      then show ?thesis by blast
    next
      case 2
      then obtain pre post where "cs = pre @ sub @ post" using Cons.IH by blast
      then have "c # cs = (c # pre) @ sub @ post" by simp
      then show ?thesis by blast
    qed
  next
    assume "\<exists>pre post. c # cs = pre @ sub @ post"
    then obtain pre post where p: "c # cs = pre @ sub @ post" by blast
    show "str_contains sub (c # cs)"
    proof (cases pre)
      case Nil
      then have "startswith (c # cs) sub" using p startswith_iff by auto
      then show ?thesis by simp
    next
      case (Cons a pre')
      then have "cs = pre' @ sub @ post" using p by simp
      then have "str_contains sub cs" using Cons.IH by blast
      then show ?thesis by simp
    qed
  qed
qed

section \<open>Properties of the rate limiter\<close>

lemma check_rate_limit_rejected:
  assumes "L = (if amb then RATE_LIMIT_REQUESTS_AMBIENT else RATE_LIMIT_REQUESTS_DEFAULT)"
    and "cache_get c now (ratelimit_key u) 0 \<ge> L"
  shows "check_rate_limit c now u amb = ((False, 0, L), c)"
  using assms by (simp add: check_rate_limit_def Let_def)

lemma check_rate_limit_admitted:
  assumes "L = (if amb then RATE_LIMIT_REQUESTS_AMBIENT else RATE_LIMIT_REQUESTS_DEFAULT)"
    and "cache_get c now (ratelimit_key u) 0 = k" and "k < L"
  shows "check_rate_limit c now u amb =
     ((True, L - (k + 1), L), c(ratelimit_key u \<mapsto> (k + 1, now + RATE_LIMIT_WINDOW)))"
  using assms by (simp add: check_rate_limit_def Let_def cache_set_def)

text \<open>
  While the subject's entry is live at every call, the \<open>n\<close>-th further call is
  admitted exactly when the count has not yet reached the limit.
\<close>

lemma run_calls_live:
  assumes L: "L = (if amb then RATE_LIMIT_REQUESTS_AMBIENT else RATE_LIMIT_REQUESTS_DEFAULT)"
    and "c (ratelimit_key u) = Some (k, e)" "t0 + RATE_LIMIT_WINDOW \<le> e"
    and "\<forall>t \<in> set ts. t0 \<le> t \<and> t < t0 + RATE_LIMIT_WINDOW" "n < length ts"
  shows "run_calls c u amb ts ! n =
     (if k + int n + 1 \<le> L then (True, L - (k + int n + 1), L) else (False, 0, L))"
  using assms(2-)
proof (induction ts arbitrary: c k e n)
  case Nil
  then show ?case by simp
next
  case (Cons t ts)
  have g: "cache_get c t (ratelimit_key u) 0 = k"
    using Cons.prems by (simp add: cache_get_def)
  show ?case
  proof (cases "k \<ge> L")
    case True
    have step: "check_rate_limit c t u amb = ((False, 0, L), c)"
      using check_rate_limit_rejected[OF L, of c t u] g True by simp
    show ?thesis
    proof (cases n)
      case 0
      then show ?thesis using step True by simp
    next
      case (Suc m)
      have "run_calls c u amb ts ! m =
        (if k + int m + 1 \<le> L then (True, L - (k + int m + 1), L) else (False, 0, L))"
        using Cons.IH[of c k e m] Cons.prems Suc by simp
      then show ?thesis using step Suc True by simp
    qed
  next
    case False
    have step: "check_rate_limit c t u amb =
       ((True, L - (k + 1), L), c(ratelimit_key u \<mapsto> (k + 1, t + RATE_LIMIT_WINDOW)))"
      using check_rate_limit_admitted[OF L g] False by simp
    show ?thesis
    proof (cases n)
      case 0
      then show ?thesis using step False by simp
    next
      case (Suc m)
      let ?c' = "c(ratelimit_key u \<mapsto> (k + 1, t + RATE_LIMIT_WINDOW))"
      have p1: "?c' (ratelimit_key u) = Some (k + 1, t + RATE_LIMIT_WINDOW)" by simp
      have p2: "t0 + RATE_LIMIT_WINDOW \<le> t + RATE_LIMIT_WINDOW" using Cons.prems by simp
      have p3: "\<forall>t \<in> set ts. t0 \<le> t \<and> t < t0 + RATE_LIMIT_WINDOW" using Cons.prems by simp
      have p4: "m < length ts" using Cons.prems Suc by simp
      have "run_calls ?c' u amb ts ! m =
        (if (k + 1) + int m + 1 \<le> L then (True, L - ((k + 1) + int m + 1), L)
         else (False, 0, L))"
        by (rule Cons.IH[of ?c' "k + 1" "t + RATE_LIMIT_WINDOW" m, OF p1 p2 p3 p4])
      then show ?thesis using step Suc by (simp add: algebra_simps)
    qed
  qed
qed

lemma run_calls_fresh:
  assumes L: "L = (if amb then RATE_LIMIT_REQUESTS_AMBIENT else RATE_LIMIT_REQUESTS_DEFAULT)"
    and fresh: "cache_get c t0 (ratelimit_key u) 0 = 0"
    and window: "\<forall>t \<in> set ts. t0 \<le> t \<and> t < t0 + RATE_LIMIT_WINDOW"
    and n: "n < length (t0 # ts)"
  shows "run_calls c u amb (t0 # ts) ! n =
     (if int (n + 1) \<le> L then (True, L - int (n + 1), L) else (False, 0, L))"
proof -
  have pos: "0 < L"
    using L by (simp add: RATE_LIMIT_REQUESTS_AMBIENT_def RATE_LIMIT_REQUESTS_DEFAULT_def)
  have step: "check_rate_limit c t0 u amb =
       ((True, L - 1, L), c(ratelimit_key u \<mapsto> (1, t0 + RATE_LIMIT_WINDOW)))"
    using check_rate_limit_admitted[OF L fresh] pos by simp
  show ?thesis
  proof (cases n)
    case 0
    then show ?thesis using step pos by simp
  next
    case (Suc m)
    let ?c' = "c(ratelimit_key u \<mapsto> (1, t0 + RATE_LIMIT_WINDOW))"
    have p1: "?c' (ratelimit_key u) = Some (1, t0 + RATE_LIMIT_WINDOW)" by simp
    have p4: "m < length ts" using n Suc by simp
    have "run_calls ?c' u amb ts ! m =
       (if 1 + int m + 1 \<le> L then (True, L - (1 + int m + 1), L) else (False, 0, L))"
      by (rule run_calls_live[of L amb ?c' u 1 "t0 + RATE_LIMIT_WINDOW" t0 ts m,
            OF L p1 order_refl window p4])
    then show ?thesis using step Suc by (simp add: algebra_simps)
  qed
qed

text \<open>
  C1. The claim: the window's expiry is set only by the first admitted request of a
  window, later admitted requests do not move it, and the count is back at 0 when
  that expiry has elapsed. On the code every admitted request stores the counter
  with a fresh timeout: a first request at second 0 gives the entry the expiry
  86400, a second at second 50000 moves it to 136400, and a third at second 86400
  still finds the count 2 and is answered with 2 remaining, not 4.
\<close>

theorem check_rate_limit_moves_expiry:
  "snd (check_rate_limit Map.empty 0 ''u'' False) (ratelimit_key ''u'') = Some (1, 86400) \<and>
   snd (check_rate_limit (snd (check_rate_limit Map.empty 0 ''u'' False)) 50000 ''u'' False)
     (ratelimit_key ''u'') = Some (2, 136400) \<and>
   run_calls Map.empty ''u'' False [0, 50000, 86400] = [(True, 4, 5), (True, 3, 5), (True, 2, 5)]"
  by (simp add: check_rate_limit_def Let_def cache_get_def cache_set_def RATE_LIMIT_WINDOW_def
      RATE_LIMIT_REQUESTS_DEFAULT_def)

text \<open>
  What does hold of the counting. With the limit 5 for the default tier and 10
  for the elevated one: when the first call finds no live count and every later
  call falls less than a window length after it, the \<open>N\<close>-th call (\<open>N = n + 1\<close>)
  is admitted exactly when \<open>N\<close> is at most the limit, and it answers
  \<open>(True, limit - N, limit)\<close> when admitted and \<open>(False, 0, limit)\<close> when not.
  Any single call that reads a count at or above the limit answers
  \<open>(False, 0, limit)\<close> and leaves the store as it was; any other call answers
  \<open>(True, limit - (count + 1), limit)\<close>.
\<close>

lemma run_calls_first_window:
  assumes "L = (if amb then 10 else 5)"
    and "cache_get c t0 (ratelimit_key u) 0 = 0"
    and "\<forall>t \<in> set ts. t0 \<le> t \<and> t < t0 + 86400"
    and "n < length (t0 # ts)"
  shows "run_calls c u amb (t0 # ts) ! n =
           (if int (n + 1) \<le> L then (True, L - int (n + 1), L) else (False, 0, L)) \<and>
         (L \<le> cache_get c' now (ratelimit_key u) 0 \<longrightarrow>
            check_rate_limit c' now u amb = ((False, 0, L), c')) \<and>
         (cache_get c' now (ratelimit_key u) 0 < L \<longrightarrow>
            fst (check_rate_limit c' now u amb) =
              (True, L - (cache_get c' now (ratelimit_key u) 0 + 1), L))"
proof -
  have L: "L = (if amb then RATE_LIMIT_REQUESTS_AMBIENT else RATE_LIMIT_REQUESTS_DEFAULT)"
    using assms(1) by (simp add: RATE_LIMIT_REQUESTS_AMBIENT_def RATE_LIMIT_REQUESTS_DEFAULT_def)
  have window: "\<forall>t \<in> set ts. t0 \<le> t \<and> t < t0 + RATE_LIMIT_WINDOW"
    using assms(3) by (simp add: RATE_LIMIT_WINDOW_def)
  have a: "run_calls c u amb (t0 # ts) ! n =
           (if int (n + 1) \<le> L then (True, L - int (n + 1), L) else (False, 0, L))"
    by (rule run_calls_fresh[OF L assms(2) window assms(4)])
  have b: "L \<le> cache_get c' now (ratelimit_key u) 0 \<longrightarrow>
            check_rate_limit c' now u amb = ((False, 0, L), c')"
    using check_rate_limit_rejected[OF L] by simp
  have c: "cache_get c' now (ratelimit_key u) 0 < L \<longrightarrow>
            fst (check_rate_limit c' now u amb) =
              (True, L - (cache_get c' now (ratelimit_key u) 0 + 1), L)"
    using check_rate_limit_admitted[OF L refl] by simp
  from a b c show ?thesis by blast
qed

lemma run_calls_first_window_example:
  "cache_get Map.empty 0 (ratelimit_key ''u'') 0 = 0 \<and>
   run_calls Map.empty ''u'' False [0, 10, 20, 30, 40, 50] ! 4 = (True, 0, 5) \<and>
   run_calls Map.empty ''u'' False [0, 10, 20, 30, 40, 50] ! 5 = (False, 0, 5)"
proof -
  have h1: "(5::int) = (if False then 10 else 5)" by simp
  have h2: "cache_get Map.empty 0 (ratelimit_key ''u'') 0 = 0" by (simp add: cache_get_def)
  have h3: "\<forall>t \<in> set [10, 20, 30, 40, 50::nat]. 0 \<le> t \<and> t < 0 + 86400" by simp
  have h4: "4 < length [0, 10, 20, 30, 40, 50::nat]" by simp
  have h5: "5 < length [0, 10, 20, 30, 40, 50::nat]" by simp
  show ?thesis
    using h2 run_calls_first_window[OF h1 h2 h3 h4] run_calls_first_window[OF h1 h2 h3 h5]
    by simp
qed

text \<open>
  The counters are kept per subject: a call for one subject leaves the entry of
  every other subject as it was, and so the answer to that other subject's next
  call.
\<close>

lemma ratelimit_key_inj: "ratelimit_key a = ratelimit_key b \<longleftrightarrow> a = b"
  by (simp add: ratelimit_key_def)

lemma check_rate_limit_other_subject:
  assumes "a \<noteq> b"
  shows "snd (check_rate_limit c now a amb) (ratelimit_key b) = c (ratelimit_key b) \<and>
         fst (check_rate_limit (snd (check_rate_limit c now a amb)) t b amb') =
           fst (check_rate_limit c t b amb')"
proof -
  have k: "ratelimit_key a \<noteq> ratelimit_key b"
    using assms by (simp add: ratelimit_key_inj)
  have e: "snd (check_rate_limit c now a amb) (ratelimit_key b) = c (ratelimit_key b)"
    using k by (simp add: check_rate_limit_def Let_def cache_set_def)
  have g: "cache_get (snd (check_rate_limit c now a amb)) t (ratelimit_key b) 0 =
           cache_get c t (ratelimit_key b) 0"
    using e by (simp add: cache_get_def)
  have f: "fst (check_rate_limit (snd (check_rate_limit c now a amb)) t b amb') =
           fst (check_rate_limit c t b amb')"
    unfolding check_rate_limit_def[of _ t b amb'] Let_def g by simp
  from e f show ?thesis by simp
qed

text \<open>
  C2. The claim: within one window the \<open>N\<close>-th call of a subject is admitted exactly
  when \<open>N\<close> is at most the limit of its tier. On the code the count is not back
  at 0 when a window of 86400 seconds has ended, because every admitted call
  renews the timeout of the entry. A default-tier subject calls at seconds 0 and
  50000, then at 86400, 86401, 86402 and 86403: the last four are the first
  four calls of the window that starts at 86400, and the fourth of them is
  rejected with \<open>(False, 0, 5)\<close> although 4 is below the limit 5. A subject that
  calls once every 72000 seconds, never more than twice in any 86400 seconds, is
  rejected at its sixth call.
\<close>

theorem run_calls_later_window_rejects_early:
  "run_calls Map.empty ''u'' False [0, 50000, 86400, 86401, 86402, 86403] =
     [(True, 4, 5), (True, 3, 5), (True, 2, 5), (True, 1, 5), (True, 0, 5), (False, 0, 5)] \<and>
   run_calls Map.empty ''u'' False [0, 72000, 144000, 216000, 288000, 360000] =
     [(True, 4, 5), (True, 3, 5), (True, 2, 5), (True, 1, 5), (True, 0, 5), (False, 0, 5)]"
  by (simp add: check_rate_limit_def Let_def cache_get_def cache_set_def RATE_LIMIT_WINDOW_def
      RATE_LIMIT_REQUESTS_DEFAULT_def)

section \<open>Properties of the retrying caller\<close>

lemma retry_attempts_all_transient:
  assumes "\<forall>a. k \<le> a \<and> a < n \<longrightarrow> transient_outcome (client m p cfg a)"
    and "k < n" and "int n = max_retries"
  shows "retry_attempts client m p cfg max_retries [k..<n] w =
     (Inl (terminal_error max_retries (client m p cfg (n - 1))),
      w\<lparr>gen_calls := gen_calls w + (n - k), slept := slept w @ [Suc k..<Suc n]\<rparr>)"
  using assms
proof (induction "n - k" arbitrary: k w)
  case 0
  then show ?case by simp
next
  case (Suc d)
  have tr: "transient_outcome (client m p cfg k)" using Suc.prems by simp
  have up: "[k..<n] = k # [Suc k..<n]" using Suc.prems by (simp add: upt_conv_Cons)
  show ?case
  proof (cases "Suc k = n")
    case True
    then have e: "[Suc k..<n] = []" by simp
    have nk: "n - 1 = k" using True by simp
    have i: "int k = max_retries - 1" using True Suc.prems by auto
    show ?thesis
    proof (cases "client m p cfg k")
      case (GenRaises x)
      then show ?thesis using tr up e nk i True
        by (simp add: sleep_def)
    next
      case (GenReturns tx)
      then show ?thesis using tr up e nk True
        by (auto simp add: sleep_def)
    qed
  next
    case False
    then have lt: "Suc k < n" using Suc.prems by simp
    have d: "d = n - Suc k" using Suc.hyps by simp
    have i: "int k \<noteq> max_retries - 1" using False Suc.prems by auto
    have all: "\<forall>a. Suc k \<le> a \<and> a < n \<longrightarrow> transient_outcome (client m p cfg a)"
      using Suc.prems by simp
    note IH = Suc.hyps(1)[OF d all lt Suc.prems(3)]
    have sl: "[Suc k..<Suc n] = Suc k # [Suc (Suc k)..<Suc n]"
      using lt by (simp add: upt_conv_Cons)
    have cnt: "Suc (gen_calls w) + (n - Suc k) = gen_calls w + (n - k)" using lt by simp
    show ?thesis
    proof (cases "client m p cfg k")
      case (GenRaises x)
      then show ?thesis using tr i cnt
        by (simp add: up IH sl sleep_def del: upt_Suc)
    next
      case (GenReturns tx)
      then show ?thesis using tr cnt
        by (auto simp add: up IH sl sleep_def simp del: upt_Suc)
    qed
  qed
qed

text \<open>
  C4. The claim: when every attempt fails with a transient signature, raised or
  in-band, the caller makes exactly \<open>max_retries\<close> attempts and then raises a
  terminal error that carries the last underlying message. A client whose every
  call returns the in-band text \<open>503 UNAVAILABLE.\<close> is attempted three times, and
  the error raised after the loop is the fixed \<open>Gemini API error: max retries
  exceeded\<close>, which does not hold that text.
\<close>

theorem call_gemini_with_retry_in_band_exhaustion:
  "transient_outcome (client_in_band DEFAULT_MODEL ''prompt'' generation_config 2) \<and>
   call_gemini_with_retry client_in_band DEFAULT_MODEL ''prompt'' generation_config 3 world0 =
     (Inl (Exn OtherException ''Gemini API error: max retries exceeded''),
      world0\<lparr>gen_calls := 3, slept := [1, 2, 3]\<rparr>) \<and>
   \<not> str_contains ''503 UNAVAILABLE.'' ''Gemini API error: max retries exceeded''"
  by (simp add: client_in_band_def call_gemini_with_retry_def world0_def sleep_def upt_rec)

text \<open>
  C4, as the code has it. With at least one attempt allowed and every attempt
  failing with a transient signature, the caller makes exactly \<open>max_retries\<close>
  attempts, sleeps \<open>1, 2, ..., max_retries\<close> seconds after them, and raises a
  terminal error: when the last attempt raised, its message is
  \<open>Gemini API error after max_retries attempts:\<close> followed by the message of that
  last error; when the last attempt returned in-band error text, it is the fixed
  \<open>Gemini API error: max retries exceeded\<close>.
\<close>

theorem call_gemini_with_retry_exhausted:
  assumes "0 < max_retries"
    and "\<forall>attempt. attempt < nat max_retries \<longrightarrow> transient_outcome (client m p cfg attempt)"
  shows "call_gemini_with_retry client m p cfg max_retries w =
     (Inl (terminal_error max_retries (client m p cfg (nat max_retries - 1))),
      w\<lparr>gen_calls := gen_calls w + nat max_retries,
        slept := slept w @ [1..<Suc (nat max_retries)]\<rparr>)"
proof -
  have a: "\<forall>a. 0 \<le> a \<and> a < nat max_retries \<longrightarrow> transient_outcome (client m p cfg a)"
    using assms(2) by simp
  have b: "0 < nat max_retries" using assms(1) by simp
  have c: "int (nat max_retries) = max_retries" using assms(1) by simp
  show ?thesis
    unfolding call_gemini_with_retry_def
    using retry_attempts_all_transient[of 0 "nat max_retries" client m p cfg max_retries w, OF a b c]
    by simp
qed

theorem call_gemini_with_retry_exhausted_witness:
  "call_gemini_with_retry client_raising DEFAULT_MODEL ''prompt'' generation_config 3 world0 =
     (Inl (Exn OtherException ''Gemini API error after 3 attempts: 503 UNAVAILABLE''),
      world0\<lparr>gen_calls := 3, slept := [1, 2, 3]\<rparr>)"
proof -
  have h1: "(0::int) < 3" by simp
  have h2: "\<forall>attempt. attempt < nat 3 \<longrightarrow>
      transient_outcome (client_raising DEFAULT_MODEL ''prompt'' generation_config attempt)"
    by (simp add: client_raising_def transient_codes_def)
  have s: "[1..<Suc (nat 3)] = [1, 2, 3]" by (simp add: upt_rec)
  show ?thesis
    using call_gemini_with_retry_exhausted[where client = client_raising and m = DEFAULT_MODEL
        and p = "''prompt''" and cfg = generation_config and w = world0, OF h1 h2] s
    by (simp add: client_raising_def world0_def str_int_def str_nat.simps)
qed

text \<open>
  C5. When the first attempt raises an error whose message holds none of the
  transient codes, the caller (allowed at least one attempt) raises that same
  error after exactly one call of the client and without any sleep: the world
  differs from the initial one in the call count only.
\<close>

theorem call_gemini_with_retry_non_transient:
  assumes "0 < max_retries" and "client m p cfg 0 = GenRaises x"
    and "\<not> list_ex (\<lambda>code. str_contains code (str_exn x)) transient_codes"
  shows "call_gemini_with_retry client m p cfg max_retries w =
     (Inl x, w\<lparr>gen_calls := Suc (gen_calls w)\<rparr>)"
proof -
  have "[0..<nat max_retries] = 0 # [1..<nat max_retries]"
    using assms(1) by (simp add: upt_conv_Cons)
  then show ?thesis
    unfolding call_gemini_with_retry_def using assms(2,3) by simp
qed

theorem call_gemini_with_retry_non_transient_witness:
  "call_gemini_with_retry client_rejecting DEFAULT_MODEL ''prompt'' generation_config 3 world0 =
     (Inl (Exn OtherException ''400 INVALID_ARGUMENT''), world0\<lparr>gen_calls := 1\<rparr>) \<and>
   slept (snd (call_gemini_with_retry client_rejecting DEFAULT_MODEL ''prompt''
                 generation_config 3 world0)) = []"
proof -
  have h1: "(0::int) < 3" by simp
  have h2: "client_rejecting DEFAULT_MODEL ''prompt'' generation_config 0 =
        GenRaises (Exn OtherException ''400 INVALID_ARGUMENT'')"
    by (simp add: client_rejecting_def)
  have h3: "\<not> list_ex (\<lambda>code. str_contains code (str_exn (Exn OtherException ''400 INVALID_ARGUMENT'')))
        transient_codes"
    by (simp add: transient_codes_def)
  show ?thesis
    using call_gemini_with_retry_non_transient[where client = client_rejecting
        and m = DEFAULT_MODEL and p = "''prompt''" and cfg = generation_config and w = world0,
        OF h1 h2 h3]
    by (simp add: world0_def)
qed

section \<open>Cross-origin headers\<close>

lemma absent_JsonResponse [simp]: "cors_headers_absent (JsonResponse d c)"
  by (simp add: cors_headers_absent_def JsonResponse_def)

lemma absent_HttpResponse [simp]: "cors_headers_absent HttpResponse"
  by (simp add: cors_headers_absent_def HttpResponse_def)

lemma absent_NotAllowed [simp]: "cors_headers_absent (HttpResponseNotAllowed l)"
  by (simp add: cors_headers_absent_def HttpResponseNotAllowed_def)

lemma absent_set_header:
  "cors_headers_absent r \<Longrightarrow>
   name \<notin> {''Access-Control-Allow-Origin'', ''Access-Control-Allow-Methods'',
            ''Access-Control-Allow-Headers'', ''Access-Control-Expose-Headers''} \<Longrightarrow>
   cors_headers_absent (set_header r name v)"
  by (auto simp add: cors_headers_absent_def set_header_def)

lemma absent_auth_failure [simp]: "cors_headers_absent (auth_failure m)"
  by (simp add: auth_failure_def)

lemma absent_profile_failure [simp]: "cors_headers_absent (profile_failure m)"
  by (simp add: profile_failure_def)

lemma absent_rate_limited [simp]: "cors_headers_absent (rate_limited amb l)"
  unfolding rate_limited_def
  by (intro absent_set_header absent_JsonResponse) simp_all

lemma extract_event_try_no_cors:
  "extract_event_try e req w = (Inr r, w') \<Longrightarrow> cors_headers_absent r"
  unfolding extract_event_try_def
  by (auto split: sum.splits prod.splits if_splits)

lemma extract_event_view_no_cors: "view_no_cors (extract_event_view e)"
  unfolding view_no_cors_def extract_event_view_def
  by (auto split: sum.splits prod.splits if_splits dest: extract_event_try_no_cors)

lemma find_matches_try_no_cors:
  "find_matches_try e req w = (Inr r, w') \<Longrightarrow> cors_headers_absent r"
  unfolding find_matches_try_def
  by (auto split: sum.splits prod.splits if_splits)

lemma find_matches_view_no_cors: "view_no_cors (find_matches_view e)"
  unfolding view_no_cors_def find_matches_view_def
  by (auto split: sum.splits prod.splits if_splits dest: find_matches_try_no_cors)

lemma health_check_view_no_cors: "view_no_cors (health_check_view e)"
  unfolding view_no_cors_def health_check_view_def by auto

lemma check_profile_view_no_cors: "view_no_cors (check_profile_view e)"
  unfolding view_no_cors_def check_profile_view_def
  by (auto simp: Let_def split: sum.splits prod.splits if_splits option.splits)

lemma require_http_methods_no_cors:
  "view_no_cors v \<Longrightarrow> view_no_cors (require_http_methods l v)"
  unfolding view_no_cors_def require_http_methods_def
  by (auto split: if_splits)

lemma require_google_auth_no_cors:
  assumes "view_no_cors v"
  shows "view_no_cors (require_google_auth e v)"
  unfolding view_no_cors_def
proof (intro allI impI)
  fix req w r w'
  assume a: "require_google_auth e v req w = (Inr r, w')"
  have v: "\<And>rq x r0 x'. v rq x = (Inr r0, x') \<Longrightarrow> cors_headers_absent r0"
    using assms unfolding view_no_cors_def by blast
  show "cors_headers_absent r"
    using a unfolding require_google_auth_def
    by (auto simp: Let_def split: sum.splits prod.splits if_splits option.splits
        intro!: absent_set_header dest: v)
qed

text \<open>
  Around a view that sets no cross-origin header itself, \<open>cors_exempt\<close> decides by
  membership of the request's origin in the allow-list alone.
\<close>

lemma cors_exempt_decides:
  assumes "view_no_cors v" and "cors_exempt v req w = (Inr r, w')"
  shows "if header_or_empty req ''Origin'' \<in> set ALLOWED_ORIGINS
         then cors_headers_present r (header_or_empty req ''Origin'')
         else cors_headers_absent r"
proof -
  have v: "\<And>rq x r0 x'. v rq x = (Inr r0, x') \<Longrightarrow> cors_headers_absent r0"
    using assms(1) unfolding view_no_cors_def by blast
  have ne: "header_or_empty req ''Origin'' \<in> set ALLOWED_ORIGINS \<Longrightarrow>
      header_or_empty req ''Origin'' \<noteq> []"
    by (auto simp: ALLOWED_ORIGINS_def)
  have pres: "\<And>r0 orig. orig \<noteq> [] \<Longrightarrow>
      cors_headers_present (add_cors_headers r0 (Some orig)) orig"
    by (simp add: add_cors_headers_def cors_headers_present_def set_header_def)
  show ?thesis
  proof (cases "header_or_empty req ''Origin'' \<in> set ALLOWED_ORIGINS")
    case True
    then have o: "get_cors_origin req = Some (header_or_empty req ''Origin'')"
      by (simp add: get_cors_origin_def)
    show ?thesis using assms(2) True ne[OF True] pres[OF ne[OF True]]
      unfolding cors_exempt_def o
      by (auto simp: Let_def split: if_splits sum.splits prod.splits)
  next
    case False
    then have o: "get_cors_origin req = None"
      by (simp add: get_cors_origin_def)
    show ?thesis using assms(2) False
      unfolding cors_exempt_def o
      by (auto simp: Let_def add_cors_headers_def split: if_splits sum.splits prod.splits dest: v)
  qed
qed

lemma urlpatterns_cors:
  "\<exists>v. view_no_cors v \<and> urlpatterns e ep = cors_exempt v"
proof (cases ep)
  case ExtractEvent
  have "view_no_cors (require_google_auth e
          (require_http_methods [''POST'', ''OPTIONS''] (extract_event_view e)))"
    by (intro require_google_auth_no_cors require_http_methods_no_cors extract_event_view_no_cors)
  then show ?thesis using ExtractEvent
    by (auto simp: extract_event_def csrf_exempt_def)
next
  case FindMatches
  have "view_no_cors (require_google_auth e
          (require_http_methods [''POST'', ''OPTIONS''] (find_matches_view e)))"
    by (intro require_google_auth_no_cors require_http_methods_no_cors find_matches_view_no_cors)
  then show ?thesis using FindMatches
    by (auto simp: find_matches_def csrf_exempt_def)
next
  case HealthCheck
  have "view_no_cors (require_http_methods [''GET'', ''OPTIONS''] (health_check_view e))"
    by (intro require_http_methods_no_cors health_check_view_no_cors)
  then show ?thesis using HealthCheck
    by (auto simp: health_check_def csrf_exempt_def)
next
  case CheckProfile
  have "view_no_cors (require_http_methods [''GET'', ''OPTIONS''] (check_profile_view e))"
    by (intro require_http_methods_no_cors check_profile_view_no_cors)
  then show ?thesis using CheckProfile
    by (auto simp: check_profile_def csrf_exempt_def)
qed

text \<open>
  C6. For every request to any of the four endpoints and every response the
  endpoint returns: when the request's \<open>Origin\<close> header equals one of the four
  allow-listed origins, character for character, the response carries the four
  cross-origin headers with that origin echoed; for every other origin (a
  subdomain, another scheme, none at all) it carries none of the four.
\<close>

theorem cors_headers_iff_allowed_origin:
  assumes "urlpatterns e ep req w = (Inr r, w')"
  shows "if header_or_empty req ''Origin'' =
              ''chrome-extension://lmmjfddkgnehcnhelddgmlmookgemeop'' \<or>
            header_or_empty req ''Origin'' = ''https://messages.google.com'' \<or>
            header_or_empty req ''Origin'' = ''https://www.messenger.com'' \<or>
            header_or_empty req ''Origin'' = ''https://web.whatsapp.com''
         then cors_headers_present r (header_or_empty req ''Origin'')
         else cors_headers_absent r"
proof -
  obtain v where v: "view_no_cors v" "urlpatterns e ep = cors_exempt v"
    using urlpatterns_cors by blast
  have "if header_or_empty req ''Origin'' \<in> set ALLOWED_ORIGINS
         then cors_headers_present r (header_or_empty req ''Origin'')
         else cors_headers_absent r"
    using cors_exempt_decides[OF v(1)] assms v(2) by simp
  then show ?thesis by (simp add: ALLOWED_ORIGINS_def)
qed

theorem cors_headers_iff_allowed_origin_witness:
  "(\<exists>r w'. urlpatterns (stub_env ''ab@x.com'') HealthCheck
          (stub_request ''GET'' good_token ''https://web.whatsapp.com'') world0 = (Inr r, w') \<and>
      cors_headers_present r ''https://web.whatsapp.com'') \<and>
   (\<exists>r w'. urlpatterns (stub_env ''ab@x.com'') HealthCheck
          (stub_request ''GET'' good_token ''https://evil.web.whatsapp.com'') world0 = (Inr r, w') \<and>
      cors_headers_absent r)"
proof -
  let ?ok = "stub_request ''GET'' good_token ''https://web.whatsapp.com''"
  let ?sub = "stub_request ''GET'' good_token ''https://evil.web.whatsapp.com''"
  let ?doc = "JsonResponse [(''status'', JStr ''ok''), (''api_configured'', JBool True)] 200"
  have h1: "urlpatterns (stub_env ''ab@x.com'') HealthCheck ?ok world0 =
      (Inr (add_cors_headers ?doc (Some ''https://web.whatsapp.com'')), world0)"
    by (simp add: health_check_def csrf_exempt_def cors_exempt_def require_http_methods_def
        health_check_view_def stub_request_def stub_env_def header_or_empty_def get_cors_origin_def
        ALLOWED_ORIGINS_def Let_def)
  have h2: "urlpatterns (stub_env ''ab@x.com'') HealthCheck ?sub world0 =
      (Inr (add_cors_headers ?doc None), world0)"
    by (simp add: health_check_def csrf_exempt_def cors_exempt_def require_http_methods_def
        health_check_view_def stub_request_def stub_env_def header_or_empty_def get_cors_origin_def
        ALLOWED_ORIGINS_def Let_def)
  have o1: "header_or_empty ?ok ''Origin'' = ''https://web.whatsapp.com''"
    by (simp add: stub_request_def header_or_empty_def)
  have o2: "header_or_empty ?sub ''Origin'' = ''https://evil.web.whatsapp.com''"
    by (simp add: stub_request_def header_or_empty_def)
  have p1: "cors_headers_present (add_cors_headers ?doc (Some ''https://web.whatsapp.com''))
      ''https://web.whatsapp.com''"
    using cors_headers_iff_allowed_origin[OF h1] o1 by simp
  have p2: "cors_headers_absent (add_cors_headers ?doc None)"
    using cors_headers_iff_allowed_origin[OF h2] o2 by simp
  from h1 h2 p1 p2 show ?thesis by blast
qed

section \<open>The error envelope\<close>

lemma status_set_header [simp]: "status (set_header r n v) = status r"
  by (simp add: set_header_def)

lemma envelope_set_header [simp]: "error_envelope (set_header r n v) = error_envelope r"
  by (simp add: set_header_def error_envelope_def)

lemma status_add_cors [simp]: "status (add_cors_headers r origin) = status r"
  by (simp add: add_cors_headers_def split: option.splits)

lemma envelope_add_cors [simp]: "error_envelope (add_cors_headers r origin) = error_envelope r"
  by (simp add: add_cors_headers_def split: option.splits)

lemma status_JsonResponse [simp]: "status (JsonResponse d c) = c"
  by (simp add: JsonResponse_def)

lemma envelope_auth_failure [simp]: "error_envelope (auth_failure m)"
  by (simp add: auth_failure_def error_envelope_def JsonResponse_def)

lemma envelope_profile_failure [simp]: "error_envelope (profile_failure m)"
  by (simp add: profile_failure_def error_envelope_def JsonResponse_def)

lemma envelope_rate_limited [simp]: "error_envelope (rate_limited amb l)"
  unfolding rate_limited_def
  by (simp only: envelope_set_header) (simp add: error_envelope_def JsonResponse_def)

text \<open>A validator that rejects a request always gives a message.\<close>

lemma validate_extract_request_error:
  "validate_extract_request data = (False, err) \<Longrightarrow> \<exists>m. err = Some m"
proof -
  have "fst (validate_extract_request data) \<or> snd (validate_extract_request data) \<noteq> None"
    unfolding validate_extract_request_def
    by (simp split: json.splits prod.splits)
  then show "validate_extract_request data = (False, err) \<Longrightarrow> \<exists>m. err = Some m"
    by auto
qed

lemma validate_match_request_error:
  "validate_match_request data = (False, err) \<Longrightarrow> \<exists>m. err = Some m"
proof -
  have "fst (validate_match_request data) \<or> snd (validate_match_request data) \<noteq> None"
    unfolding validate_match_request_def
    by (simp split: prod.splits option.splits)
  then show "validate_match_request data = (False, err) \<Longrightarrow> \<exists>m. err = Some m"
    by auto
qed

lemma extract_event_try_enveloped:
  "extract_event_try e req w = (Inr r, w') \<Longrightarrow> 400 \<le> status r \<Longrightarrow> error_envelope r"
  unfolding extract_event_try_def
  by (auto simp: error_envelope_def JsonResponse_def
      split: sum.splits prod.splits if_splits dest!: validate_extract_request_error)

lemma extract_event_view_enveloped: "view_enveloped (extract_event_view e)"
  unfolding view_enveloped_def extract_event_view_def
  by (auto simp: error_envelope_def JsonResponse_def split: sum.splits prod.splits if_splits
      dest: extract_event_try_enveloped[unfolded error_envelope_def])

lemma find_matches_try_enveloped:
  "find_matches_try e req w = (Inr r, w') \<Longrightarrow> 400 \<le> status r \<Longrightarrow> error_envelope r"
  unfolding find_matches_try_def
  by (auto simp: error_envelope_def JsonResponse_def
      split: sum.splits prod.splits if_splits dest!: validate_match_request_error)

lemma find_matches_view_enveloped: "view_enveloped (find_matches_view e)"
  unfolding view_enveloped_def find_matches_view_def
  by (auto simp: error_envelope_def JsonResponse_def split: sum.splits prod.splits if_splits
      dest: find_matches_try_enveloped[unfolded error_envelope_def])

lemma health_check_view_enveloped: "view_enveloped (health_check_view e)"
  unfolding view_enveloped_def health_check_view_def by (auto simp: JsonResponse_def)

lemma check_profile_view_enveloped: "view_enveloped (check_profile_view e)"
  unfolding view_enveloped_def check_profile_view_def
  by (auto simp: Let_def HttpResponse_def split: sum.splits prod.splits if_splits option.splits)

lemma require_http_methods_enveloped:
  "view_enveloped v \<Longrightarrow> view_enveloped (require_http_methods l v)"
  unfolding view_enveloped_def require_http_methods_def
  by (auto simp: HttpResponseNotAllowed_def split: if_splits)

lemma require_google_auth_enveloped:
  assumes "view_enveloped v"
  shows "view_enveloped (require_google_auth e v)"
  unfolding view_enveloped_def
proof (intro allI impI)
  fix req w r w'
  assume a: "require_google_auth e v req w = (Inr r, w')"
    and s: "400 \<le> status r" "status r \<noteq> 405"
  have v: "\<And>rq x r0 x'. v rq x = (Inr r0, x') \<Longrightarrow> 400 \<le> status r0 \<Longrightarrow> status r0 \<noteq> 405
      \<Longrightarrow> error_envelope r0"
    using assms unfolding view_enveloped_def by blast
  show "error_envelope r"
    using a s unfolding require_google_auth_def
    by (auto simp: Let_def split: sum.splits prod.splits if_splits option.splits dest: v)
qed

lemma cors_exempt_enveloped:
  assumes "view_enveloped v"
  shows "view_enveloped (cors_exempt v)"
  unfolding view_enveloped_def
proof (intro allI impI)
  fix req w r w'
  assume a: "cors_exempt v req w = (Inr r, w')"
    and s: "400 \<le> status r" "status r \<noteq> 405"
  have v: "\<And>rq x r0 x'. v rq x = (Inr r0, x') \<Longrightarrow> 400 \<le> status r0 \<Longrightarrow> status r0 \<noteq> 405
      \<Longrightarrow> error_envelope r0"
    using assms unfolding view_enveloped_def by blast
  show "error_envelope r"
    using a s unfolding cors_exempt_def
    by (auto simp: Let_def HttpResponse_def split: sum.splits prod.splits if_splits dest: v)
qed

lemma urlpatterns_enveloped: "view_enveloped (urlpatterns e ep)"
proof (cases ep)
  case ExtractEvent
  then show ?thesis
    by (simp add: extract_event_def csrf_exempt_def cors_exempt_enveloped
        require_google_auth_enveloped require_http_methods_enveloped extract_event_view_enveloped)
next
  case FindMatches
  then show ?thesis
    by (simp add: find_matches_def csrf_exempt_def cors_exempt_enveloped
        require_google_auth_enveloped require_http_methods_enveloped find_matches_view_enveloped)
next
  case HealthCheck
  then show ?thesis
    by (simp add: health_check_def csrf_exempt_def cors_exempt_enveloped
        require_http_methods_enveloped health_check_view_enveloped)
next
  case CheckProfile
  then show ?thesis
    by (simp add: check_profile_def csrf_exempt_def cors_exempt_enveloped
        require_http_methods_enveloped check_profile_view_enveloped)
qed

text \<open>
  C8. The claim: every error response of the endpoints has the envelope, a false
  \<open>success\<close>, a null data field and an error string. A GET to the extraction
  endpoint with a verified token and quota left passes authentication and is
  then answered by the method guard with status 405 and no document at all.
\<close>

theorem method_not_allowed_has_no_envelope:
  "(case fst (extract_event (stub_env ''ab@x.com'')
                (stub_request ''GET'' good_token ''https://web.whatsapp.com'') world0) of
      Inl x \<Rightarrow> False
    | Inr r \<Rightarrow> status r = 405 \<and> body r = None \<and> \<not> error_envelope r)"
  by (simp add: extract_event_def csrf_exempt_def cors_exempt_def require_http_methods_def
      require_google_auth_def verify_google_token_def stub_env_def check_ambient_profile_def
      check_rate_limit_def cache_get_def cache_set_def world0_def good_token_def
      stub_request_def header_or_empty_def get_cors_origin_def
      ALLOWED_ORIGINS_def Let_def HttpResponseNotAllowed_def error_envelope_def
      add_cors_headers_def set_header_def RATE_LIMIT_REQUESTS_DEFAULT_def)

text \<open>
  C8, as the code has it. Every response of the four endpoints whose status is an
  error status other than 405 (the answers 400, 401, 429 and 500 that the views
  and the authentication decorator build) has the envelope: \<open>success\<close> is false,
  \<open>error\<close> is a string, and a data field is null.
\<close>

theorem error_responses_enveloped:
  assumes "urlpatterns e ep req w = (Inr r, w')" and "400 \<le> status r" and "status r \<noteq> 405"
  shows "error_envelope r"
  using urlpatterns_enveloped[of e ep] assms unfolding view_enveloped_def by blast

theorem error_responses_enveloped_witness:
  "\<exists>r w'. urlpatterns (stub_env ''ab@x.com'') CheckProfile
          (stub_request ''GET'' ''short-token'' ''https://web.whatsapp.com'') world0 = (Inr r, w') \<and>
     status r = 401 \<and> error_envelope r"
proof -
  let ?r = "add_cors_headers (profile_failure ''Invalid token format'')
              (Some ''https://web.whatsapp.com'')"
  have h1: "urlpatterns (stub_env ''ab@x.com'') CheckProfile
          (stub_request ''GET'' ''short-token'' ''https://web.whatsapp.com'') world0 = (Inr ?r, world0)"
    by (simp add: check_profile_def csrf_exempt_def cors_exempt_def require_http_methods_def
      check_profile_view_def stub_request_def header_or_empty_def get_cors_origin_def
      ALLOWED_ORIGINS_def Let_def)
  have h2: "status ?r = 401" by (simp add: profile_failure_def)
  have h3: "400 \<le> status ?r" "status ?r \<noteq> 405" using h2 by simp_all
  from error_responses_enveloped[OF h1 h3] h1 h2 show ?thesis by blast
qed

section \<open>A match request without candidates\<close>





section \<open>Masking the email\<close>

text \<open>
  With a local part that is not empty, the mask is its first three characters
  when it has more than three, its first character otherwise, then \<open>***@\<close> and
  the domain.
\<close>

lemma mask_email_nonempty_local_part:
  assumes "local_part \<noteq> []" and "CHR ''@'' \<notin> set local_part"
  shows "mask_email (local_part @ CHR ''@'' # domain) =
     Inr ((if length local_part > 3 then take 3 local_part else take 1 local_part) @
          ''***@'' @ domain)"
proof -
  have tw: "takeWhile (\<lambda>ch. ch \<noteq> CHR ''@'') (local_part @ CHR ''@'' # domain) = local_part"
    using assms(2) by (induction local_part) auto
  have dw: "dropWhile (\<lambda>ch. ch \<noteq> CHR ''@'') (local_part @ CHR ''@'' # domain) =
      CHR ''@'' # domain"
    using assms(2) by (induction local_part) auto
  show ?thesis
    using assms(1) unfolding mask_email_def tw dw
    by (cases local_part) (simp_all add: Let_def)
qed

text \<open>
  C9. The claim: every verified email that contains \<open>@\<close> is answered with its
  mask. The two examples of the claim are masked as it says; the email
  \<open>@x.com\<close>, whose local part is empty, is not masked at all: taking the first
  character of the local part raises \<open>IndexError\<close>.
\<close>

theorem mask_email_empty_local_part:
  "mask_email ''ab@x.com'' = Inr ''a***@x.com'' \<and>
   mask_email ''abcdef@x.com'' = Inr ''abc***@x.com'' \<and>
   mask_email ''@x.com'' = Inl (Exn IndexError ''string index out of range'')"
  by (simp add: mask_email_def)

text \<open>
  C10. The masking step is not total: for every GET to the profile endpoint whose
  token Google verifies for an email that starts with \<open>@\<close> (an empty local part),
  the endpoint returns no response, neither a success nor one of its errors; the
  \<open>IndexError\<close> of the index into the local part leaves it unhandled.
\<close>

theorem check_profile_empty_local_part_raises:
  assumes "http_method req = ''GET''"
    and "header_or_empty req ''Authorization'' = ''Bearer '' @ token" and "20 \<le> length token"
    and "verify_google_token e token w = (Some userinfo, w1)"
    and "map_of userinfo ''email'' = Some (CHR ''@'' # domain)"
  shows "check_profile e req w = (Inl (Exn IndexError ''string index out of range''), w1)"
proof -
  have ne: "userinfo \<noteq> []" using assms(5) by auto
  have tk: "\<not> (token = [] \<or> length token < 20)" using assms(3) by auto
  have m: "mask_email (CHR ''@'' # domain) = Inl (Exn IndexError ''string index out of range'')"
    by (simp add: mask_email_def)
  have v: "check_profile_view e req w = (Inl (Exn IndexError ''string index out of range''), w1)"
    unfolding check_profile_view_def
    using assms(1,2,4,5) tk ne m by (simp add: Let_def)
  show ?thesis
    unfolding check_profile_def csrf_exempt_def cors_exempt_def require_http_methods_def
    using v assms(1) by (simp add: Let_def)
qed

theorem check_profile_empty_local_part_raises_witness:
  "fst (check_profile (stub_env ''@x.com'')
          (stub_request ''GET'' good_token ''https://web.whatsapp.com'') world0) =
     Inl (Exn IndexError ''string index out of range'')"
proof -
  let ?e = "stub_env ''@x.com''"
  let ?req = "stub_request ''GET'' good_token ''https://web.whatsapp.com''"
  let ?ui = "[(''sub'', ''110248495921238986420''), (''email'', ''@x.com'')]"
  let ?w1 = "world0\<lparr>net_calls := [UserinfoCall good_token, TokeninfoCall good_token]\<rparr>"
  have h1: "http_method ?req = ''GET''" by (simp add: stub_request_def)
  have h2: "header_or_empty ?req ''Authorization'' = ''Bearer '' @ good_token"
    by (simp add: stub_request_def header_or_empty_def)
  have h3: "20 \<le> length good_token" by (simp add: good_token_def)
  have h4: "verify_google_token ?e good_token world0 = (Some ?ui, ?w1)"
    by (simp add: verify_google_token_def stub_env_def world0_def Let_def)
  have h5: "map_of ?ui ''email'' = Some (CHR ''@'' # ''x.com'')" by simp
  show ?thesis
    using check_profile_empty_local_part_raises[OF h1 h2 h3 h4 h5] by simp
qed

section \<open>Token format\<close>

text \<open>
  C3. For every request other than a preflight whose bearer token is shorter than
  20 characters, the authentication decorator (around any view) and the profile
  view answer 401 with the message \<open>Invalid token format\<close> and leave the world as
  it was: no outbound call, to the identity endpoint or to the introspection
  endpoint, is recorded. So the extraction and match endpoints answer such a
  request with 401 and an unchanged world, and so does the profile endpoint for
  a GET.
\<close>

theorem short_token_rejected_without_network:
  assumes "http_method req \<noteq> ''OPTIONS''"
    and "header_or_empty req ''Authorization'' = ''Bearer '' @ token"
    and "length token < 20"
  shows "require_google_auth e view_func req w = (Inr (auth_failure ''Invalid token format''), w) \<and>
         status (auth_failure ''Invalid token format'') = 401 \<and>
         net_calls (snd (require_google_auth e view_func req w)) = net_calls w \<and>
         check_profile_view e req w = (Inr (profile_failure ''Invalid token format''), w) \<and>
         status (profile_failure ''Invalid token format'') = 401 \<and>
         net_calls (snd (check_profile_view e req w)) = net_calls w \<and>
         (\<exists>r. extract_event e req w = (Inr r, w) \<and> status r = 401) \<and>
         (\<exists>r. find_matches e req w = (Inr r, w) \<and> status r = 401) \<and>
         (http_method req = ''GET'' \<longrightarrow>
            (\<exists>r. check_profile e req w = (Inr r, w) \<and> status r = 401))"
proof -
  have a: "\<And>v. require_google_auth e v req w = (Inr (auth_failure ''Invalid token format''), w)"
    using assms by (simp add: require_google_auth_def Let_def)
  have b: "check_profile_view e req w = (Inr (profile_failure ''Invalid token format''), w)"
    using assms by (simp add: check_profile_view_def Let_def)
  have s1: "status (auth_failure ''Invalid token format'') = 401"
    by (simp add: auth_failure_def)
  have s2: "status (profile_failure ''Invalid token format'') = 401"
    by (simp add: profile_failure_def)
  have c: "\<exists>r. extract_event e req w = (Inr r, w) \<and> status r = 401"
    using assms(1) a s1 by (simp add: extract_event_def csrf_exempt_def cors_exempt_def Let_def)
  have d: "\<exists>r. find_matches e req w = (Inr r, w) \<and> status r = 401"
    using assms(1) a s1 by (simp add: find_matches_def csrf_exempt_def cors_exempt_def Let_def)
  have f: "http_method req = ''GET'' \<longrightarrow>
      (\<exists>r. check_profile e req w = (Inr r, w) \<and> status r = 401)"
    using assms(1) b s2
    by (simp add: check_profile_def csrf_exempt_def cors_exempt_def require_http_methods_def Let_def)
  have n1: "net_calls (snd (require_google_auth e view_func req w)) = net_calls w"
    using a by simp
  have n2: "net_calls (snd (check_profile_view e req w)) = net_calls w"
    using b by simp
  from a b s1 s2 c d f n1 n2 show ?thesis by blast
qed

theorem short_token_rejected_without_network_witness:
  "http_method (stub_request ''POST'' ''short-token'' ''https://web.whatsapp.com'') \<noteq> ''OPTIONS'' \<and>
   length ''short-token'' < 20 \<and>
   fst (require_google_auth (stub_env ''ab@x.com'') (health_check_view (stub_env ''ab@x.com''))
          (stub_request ''POST'' ''short-token'' ''https://web.whatsapp.com'') world0) =
     Inr (auth_failure ''Invalid token format'') \<and>
   net_calls (snd (check_profile_view (stub_env ''ab@x.com'')
          (stub_request ''POST'' ''short-token'' ''https://web.whatsapp.com'') world0)) = []"
proof -
  let ?req = "stub_request ''POST'' ''short-token'' ''https://web.whatsapp.com''"
  have h1: "http_method ?req \<noteq> ''OPTIONS''" by (simp add: stub_request_def)
  have h2: "header_or_empty ?req ''Authorization'' = ''Bearer '' @ ''short-token''"
    by (simp add: stub_request_def header_or_empty_def)
  have h3: "length ''short-token'' < 20" by simp
  show ?thesis
    using h1 h3 short_token_rejected_without_network[OF h1 h2 h3,
        of "stub_env ''ab@x.com''" "health_check_view (stub_env ''ab@x.com'')" world0]
    by (simp add: world0_def)
qed

section \<open>Endpoints that always answer\<close>

text \<open>
  The extraction, match and health endpoints answer every request with a
  response: the handlers of the views catch every exception, and the subject is
  always present in what token verification returns. The profile endpoint is the
  exception, by its masking step.
\<close>

lemma verify_google_token_sub:
  "verify_google_token e token w = (Some userinfo, w1) \<Longrightarrow> \<exists>uid. map_of userinfo ''sub'' = Some uid"
  unfolding verify_google_token_def
  by (auto simp: Let_def split: http_outcome.splits if_splits sum.splits)

lemma extract_event_view_total: "view_total (extract_event_view e)"
  unfolding view_total_def extract_event_view_def
  by (auto split: sum.splits prod.splits)

lemma find_matches_view_total: "view_total (find_matches_view e)"
  unfolding view_total_def find_matches_view_def
  by (auto split: sum.splits prod.splits)

lemma health_check_view_total: "view_total (health_check_view e)"
  unfolding view_total_def health_check_view_def by simp

lemma require_http_methods_total: "view_total v \<Longrightarrow> view_total (require_http_methods l v)"
  unfolding view_total_def require_http_methods_def by simp

lemma require_google_auth_total:
  assumes "view_total v"
  shows "view_total (require_google_auth e v)"
  unfolding view_total_def
proof (intro allI)
  fix req w
  have v: "\<And>rq x. \<exists>r x'. v rq x = (Inr r, x')"
    using assms unfolding view_total_def by blast
  show "\<exists>r w'. require_google_auth e v req w = (Inr r, w')"
  proof (cases "verify_google_token e (drop 7 (header_or_empty req ''Authorization'')) w")
    case (Pair res w1)
    show ?thesis
    proof (cases res)
      case None
      then show ?thesis using Pair v[of req w]
        unfolding require_google_auth_def by (auto simp: Let_def)
    next
      case (Some userinfo)
      obtain uid where uid: "map_of userinfo ''sub'' = Some uid"
        using verify_google_token_sub Pair Some by blast
      obtain a rem lim c' where rl: "check_rate_limit (cache w1) (cache_time e) uid
          (check_ambient_profile e (case map_of userinfo ''email'' of None \<Rightarrow> [] | Some v \<Rightarrow> v))
          = ((a, rem, lim), c')"
        by (metis prod_cases3 surj_pair)
      show ?thesis using Pair Some uid rl v[of req w]
          v[of "req\<lparr>google_user_id := Some uid, is_ambient_user := Some
             (check_ambient_profile e (case map_of userinfo ''email'' of None \<Rightarrow> [] | Some v \<Rightarrow> v))\<rparr>" "w1\<lparr>cache := c'\<rparr>"]
        unfolding require_google_auth_def by (auto simp: Let_def)
    qed
  qed
qed

lemma cors_exempt_total: "view_total v \<Longrightarrow> view_total (cors_exempt v)"
  unfolding view_total_def cors_exempt_def
  by (auto simp: Let_def split: sum.splits prod.splits) (metis Inl_Inr_False prod.inject)

lemma endpoints_total:
  "ep \<noteq> CheckProfile \<Longrightarrow> \<exists>r w'. urlpatterns e ep req w = (Inr r, w')"
proof (cases ep)
  case ExtractEvent
  have "view_total (extract_event e)"
    unfolding extract_event_def csrf_exempt_def
    by (intro cors_exempt_total require_google_auth_total require_http_methods_total extract_event_view_total)
  then show ?thesis using ExtractEvent unfolding view_total_def by simp
next
  case FindMatches
  have "view_total (find_matches e)"
    unfolding find_matches_def csrf_exempt_def
    by (intro cors_exempt_total require_google_auth_total require_http_methods_total find_matches_view_total)
  then show ?thesis using FindMatches unfolding view_total_def by simp
next
  case HealthCheck
  have "view_total (health_check e)"
    unfolding health_check_def csrf_exempt_def
    by (intro cors_exempt_total require_http_methods_total health_check_view_total)
  then show ?thesis using HealthCheck unfolding view_total_def by simp
next
  case CheckProfile
  assume "ep \<noteq> CheckProfile"
  then show ?thesis using CheckProfile by simp
qed

end
